theory Spec2Isabelle
  imports Complex_Main "HOL-Library.Sublist" "HOL-Library.Multiset"
begin

section \<open>JavaScript values\<close>

text \<open>
  Both endpoints work on values that come out of \<^verbatim>\<open>JSON.parse\<close> (the request body, the
  model's answer) and are typed \<^verbatim>\<open>any\<close> in the source. A value is one of the JSON kinds,
  plus \<^verbatim>\<open>undefined\<close> for what a missing property reads as and the numbers that are not
  finite (\<^verbatim>\<open>NaN\<close> and the two infinities, which \<^verbatim>\<open>Number\<close> can give). An object lists
  its properties in the order in which the engine enumerates them, each key once. Text is
  a list of 8-bit code units.
\<close>

datatype jsval =
    JUndefined
  | JNull
  | JBool bool
  | JNum rat
  | JNaN
  | JInfinity bool
  | JStr string
  | JArr "jsval list"
  | JObj "(string \<times> jsval) list"

text \<open>
  A thrown value: \<^verbatim>\<open>error.name\<close> and \<^verbatim>\<open>error.message\<close>. A computation that may throw
  returns \<open>Inl\<close> of what it throws.
\<close>

datatype js_error = Error (error_name: string) (error_message: string)

type_synonym 'a result = "js_error + 'a"

text \<open>
  Reading a property of \<^verbatim>\<open>null\<close> or \<^verbatim>\<open>undefined\<close> throws a TypeError (the message is
  V8's). On an object the property is looked up; the handlers only
  read the names \<^verbatim>\<open>id\<close>, \<^verbatim>\<open>filename\<close>, \<^verbatim>\<open>subject\<close>, \<^verbatim>\<open>caption\<close>, \<^verbatim>\<open>mood\<close>,
  \<^verbatim>\<open>composition\<close>, \<^verbatim>\<open>visual_energy\<close>, \<^verbatim>\<open>visualWeight\<close>, \<^verbatim>\<open>best_role\<close>, \<^verbatim>\<open>role\<close>,
  \<^verbatim>\<open>reason\<close>, \<^verbatim>\<open>orderedIds\<close>, \<^verbatim>\<open>ordered_ids\<close>, \<^verbatim>\<open>beats\<close>, \<^verbatim>\<open>theme\<close>, \<^verbatim>\<open>emotion_arc\<close>,
  \<^verbatim>\<open>analysisResults\<close>, \<^verbatim>\<open>output_text\<close> and \<^verbatim>\<open>output\<close>, none of which a string, number,
  boolean or array has, so there the read gives \<^verbatim>\<open>undefined\<close>. A read that does not
  throw has no effect.
\<close>

definition type_error :: "jsval \<Rightarrow> string \<Rightarrow> js_error" where
  "type_error v k = Error ''TypeError''
     (''Cannot read properties of '' @ (if v = JNull then ''null'' else ''undefined'')
        @ '' (reading '' @ [CHR 0x27] @ k @ [CHR 0x27] @ '')'')"

definition get_prop :: "jsval \<Rightarrow> string \<Rightarrow> jsval result" where
  "get_prop v k =
     (case v of
        JUndefined \<Rightarrow> Inl (type_error v k)
      | JNull \<Rightarrow> Inl (type_error v k)
      | JObj kvs \<Rightarrow> Inr (case map_of kvs k of None \<Rightarrow> JUndefined | Some x \<Rightarrow> x)
      | _ \<Rightarrow> Inr JUndefined)"

text \<open>The operand tests of \<^verbatim>\<open>??\<close> and of \<^verbatim>\<open>||\<close>, and \<^verbatim>\<open>Array.isArray\<close>.\<close>

definition nullish :: "jsval \<Rightarrow> bool" where
  "nullish v = (v = JUndefined \<or> v = JNull)"

definition coalesce :: "jsval \<Rightarrow> jsval \<Rightarrow> jsval" where
  "coalesce a b = (if nullish a then b else a)"

fun truthy :: "jsval \<Rightarrow> bool" where
  "truthy JUndefined = False"
| "truthy JNull = False"
| "truthy (JBool b) = b"
| "truthy (JNum q) = (q \<noteq> 0)"
| "truthy JNaN = False"
| "truthy (JInfinity positive) = True"
| "truthy (JStr s) = (s \<noteq> [])"
| "truthy (JArr xs) = True"
| "truthy (JObj kvs) = True"

definition js_or :: "jsval \<Rightarrow> jsval \<Rightarrow> jsval" where
  "js_or a b = (if truthy a then a else b)"

fun isArray :: "jsval \<Rightarrow> bool" where
  "isArray (JArr xs) = True"
| "isArray v = False"

text \<open>Computations that may throw, in sequence; the first error ends the sequence.\<close>

definition bind_result :: "'a result \<Rightarrow> ('a \<Rightarrow> 'b result) \<Rightarrow> 'b result" where
  "bind_result m f = (case m of Inl e \<Rightarrow> Inl e | Inr v \<Rightarrow> f v)"

fun all_results :: "'a result list \<Rightarrow> 'a list result" where
  "all_results [] = Inr []"
| "all_results (r # rs) =
     bind_result r (\<lambda>y. bind_result (all_results rs) (\<lambda>ys. Inr (y # ys)))"

fun map_result :: "('a \<Rightarrow> 'b result) \<Rightarrow> 'a list \<Rightarrow> 'b list result" where
  "map_result f [] = Inr []"
| "map_result f (x # xs) =
     bind_result (f x) (\<lambda>y. bind_result (map_result f xs) (\<lambda>ys. Inr (y # ys)))"

text \<open>
  \<^verbatim>\<open>String(v)\<close>. The text of a finite number is the engine's shortest round-trip
  rendering of a double; it is not modelled and enters as the parameter \<open>ns\<close>. An array
  is the comma-joined text of its elements, taken in order, \<^verbatim>\<open>null\<close> and \<^verbatim>\<open>undefined\<close>
  elements giving the empty text. A plain object is converted through its \<^verbatim>\<open>toString\<close>
  and \<^verbatim>\<open>valueOf\<close>: with the inherited \<^verbatim>\<open>toString\<close> the text is \<^verbatim>\<open>[object Object]\<close>; an
  own property named \<^verbatim>\<open>toString\<close> (never callable in parsed JSON) hides it, the
  inherited \<^verbatim>\<open>valueOf\<close> returns the object itself, and the conversion throws a TypeError.
\<close>

fun join_comma :: "string list \<Rightarrow> string" where
  "join_comma [] = []"
| "join_comma [s] = s"
| "join_comma (s # t # ts) = s @ '','' @ join_comma (t # ts)"

definition primitive_error :: js_error where
  "primitive_error = Error ''TypeError'' ''Cannot convert object to primitive value''"

fun js_String :: "(rat \<Rightarrow> string) \<Rightarrow> jsval \<Rightarrow> string result" where
  "js_String ns JUndefined = Inr ''undefined''"
| "js_String ns JNull = Inr ''null''"
| "js_String ns (JBool b) = Inr (if b then ''true'' else ''false'')"
| "js_String ns (JNum q) = Inr (ns q)"
| "js_String ns JNaN = Inr ''NaN''"
| "js_String ns (JInfinity positive) = Inr (if positive then ''Infinity'' else ''-Infinity'')"
| "js_String ns (JStr s) = Inr s"
| "js_String ns (JArr xs) =
     bind_result
       (all_results
          (map (\<lambda>x. if x = JUndefined \<or> x = JNull then Inr [] else js_String ns x) xs))
       (\<lambda>parts. Inr (join_comma parts))"
| "js_String ns (JObj kvs) =
     (if ''toString'' \<in> fst ` set kvs then Inl primitive_error else Inr ''[object Object]'')"

text \<open>
  \<^verbatim>\<open>Number(v)\<close>. An object or array is first converted to a primitive, which for parsed
  JSON is its text or the TypeError above; the number a text denotes is the engine's and
  enters as the parameter \<open>sn\<close>.
\<close>

fun js_Number :: "(rat \<Rightarrow> string) \<Rightarrow> (string \<Rightarrow> jsval) \<Rightarrow> jsval \<Rightarrow> jsval result" where
  "js_Number ns sn JUndefined = Inr JNaN"
| "js_Number ns sn JNull = Inr (JNum 0)"
| "js_Number ns sn (JBool b) = Inr (JNum (if b then 1 else 0))"
| "js_Number ns sn (JNum q) = Inr (JNum q)"
| "js_Number ns sn JNaN = Inr JNaN"
| "js_Number ns sn (JInfinity positive) = Inr (JInfinity positive)"
| "js_Number ns sn (JStr s) = Inr (sn s)"
| "js_Number ns sn (JArr xs) = bind_result (js_String ns (JArr xs)) (\<lambda>s. Inr (sn s))"
| "js_Number ns sn (JObj kvs) = bind_result (js_String ns (JObj kvs)) (\<lambda>s. Inr (sn s))"

text \<open>
  The text of an array index (\<^verbatim>\<open>String(idx)\<close>, \<^verbatim>\<open>`image_${idx}`\<close>,
  \<^verbatim>\<open>remaining.toString()\<close>): a non-negative integer below \<open>2^53\<close>, rendered as its
  decimal numeral.
\<close>

definition digit_char :: "nat \<Rightarrow> char" where
  "digit_char d = ''0123456789'' ! d"

fun string_of_nat :: "nat \<Rightarrow> string" where
  "string_of_nat n =
     (if n < 10 then [digit_char n] else string_of_nat (n div 10) @ [digit_char (n mod 10)])"

text \<open>
  The number a decimal numeral denotes, and the property names that are array indices:
  the canonical decimal numerals below \<open>2^32 - 1\<close>. An object enumerates its own
  properties with the array indices first, in ascending order, and the other names after
  them in the order of their creation.
\<close>

definition nat_of_string :: "string \<Rightarrow> nat" where
  "nat_of_string t = foldl (\<lambda>a c. 10 * a + (of_char c - 48)) 0 t"

definition is_digit :: "char \<Rightarrow> bool" where
  "is_digit c = (c \<in> set ''0123456789'')"

definition is_index_key :: "string \<Rightarrow> bool" where
  "is_index_key k =
     (k \<noteq> [] \<and> list_all is_digit k \<and> (k = ''0'' \<or> hd k \<noteq> CHR ''0'')
      \<and> nat_of_string k < 4294967295)"

definition property_order :: "(string \<times> jsval) list \<Rightarrow> (string \<times> jsval) list" where
  "property_order kvs =
     sort_key (\<lambda>kv. nat_of_string (fst kv)) (filter (\<lambda>kv. is_index_key (fst kv)) kvs)
       @ filter (\<lambda>kv. \<not> is_index_key (fst kv)) kvs"

section \<open>Response Parser (\<^verbatim>\<open>safeParseJSON\<close>)\<close>

text \<open>
  \<^verbatim>\<open>s.replace(/pat\n?/g, '')\<close> for a literal, non-empty \<open>pat\<close>: scanning from the left,
  every match (the pattern and one line feed right after it, when there is one) is
  dropped and the scan resumes after the match.
\<close>

fun opt_newline :: "string \<Rightarrow> string" where
  "opt_newline [] = []"
| "opt_newline (c # cs) = (if c = CHR 0x0A then cs else c # cs)"

function replace_all :: "string \<Rightarrow> string \<Rightarrow> string" where
  "replace_all pat [] = []"
| "replace_all pat (c # cs) =
     (if pat \<noteq> [] \<and> prefix pat (c # cs)
      then replace_all pat (opt_newline (drop (length pat) (c # cs)))
      else c # replace_all pat cs)"
  by pat_completeness auto
termination
proof (relation "measure (\<lambda>(pat, s). length s)")
  show "wf (measure (\<lambda>(pat, s). length s))" by simp
next
  fix pat :: string and c :: char and cs :: string
  assume "pat \<noteq> [] \<and> prefix pat (c # cs)"
  then have "length (drop (length pat) (c # cs)) < length (c # cs)" by simp
  moreover have "length (opt_newline t) \<le> length t" for t
    by (cases t) auto
  ultimately have "length (opt_newline (drop (length pat) (c # cs))) < length (c # cs)"
    by (rule le_less_trans [rotated])
  then show "((pat, opt_newline (drop (length pat) (c # cs))), (pat, c # cs))
      \<in> measure (\<lambda>(pat, s). length s)"
    by simp
next
  fix pat :: string and c :: char and cs :: string
  show "((pat, cs), (pat, c # cs)) \<in> measure (\<lambda>(pat, s). length s)" by simp
qed

text \<open>
  \<^verbatim>\<open>trim()\<close> drops white space at both ends; in the 8-bit range that is tab, line feed,
  vertical tab, form feed, carriage return, space and the no-break space.
\<close>

definition is_space :: "char \<Rightarrow> bool" where
  "is_space c = (c \<in> set [CHR 0x09, CHR 0x0A, CHR 0x0B, CHR 0x0C, CHR 0x0D, CHR 0x20, CHR 0xA0])"

definition trim :: "string \<Rightarrow> string" where
  "trim s = rev (dropWhile is_space (rev (dropWhile is_space s)))"

definition fence :: string where
  "fence = [CHR 0x60, CHR 0x60, CHR 0x60]"

definition cleaned :: "string \<Rightarrow> string" where
  "cleaned jsonString = trim (replace_all fence (replace_all (fence @ ''json'') jsonString))"

text \<open>
  \<^verbatim>\<open>JSON.parse\<close> is the engine's; it enters as the parameter \<open>parse\<close>, which throws a
  SyntaxError (\<open>Inl\<close>) on text that is not JSON. The \<^verbatim>\<open>try\<close> block is the computation
  that may throw, the \<^verbatim>\<open>catch\<close> clause its handler.
\<close>

definition try_catch :: "'a result \<Rightarrow> (js_error \<Rightarrow> 'a result) \<Rightarrow> 'a result" where
  "try_catch body handler = (case body of Inl e \<Rightarrow> handler e | Inr v \<Rightarrow> Inr v)"

definition safeParseJSON :: "(string \<Rightarrow> jsval result) \<Rightarrow> string \<Rightarrow> jsval \<Rightarrow> jsval result" where
  "safeParseJSON parse jsonString fallback =
     try_catch (parse (cleaned jsonString)) (\<lambda>e. Inr fallback)"

fun elements :: "jsval \<Rightarrow> jsval list" where
  "elements (JArr xs) = xs"
| "elements v = []"

section \<open>Sequence endpoint: validator, fallback orderer, shots\<close>

text \<open>
  An element of \<^verbatim>\<open>images\<close>: an object with the properties \<^verbatim>\<open>id\<close>, \<^verbatim>\<open>filename\<close> and
  \<^verbatim>\<open>analysis\<close>, as the literal of lines 164-174 builds it (a property the functions below
  read may hold any value, \<^verbatim>\<open>undefined\<close> when it is absent). The array holds a fresh
  object per position, so \<^verbatim>\<open>images.indexOf(img)\<close> is the position of \<open>img\<close>.
\<close>

record image =
  image_id :: jsval
  image_filename :: jsval
  image_analysis :: jsval

text \<open>\<^verbatim>\<open>String(v ?? idx)\<close> for an array index \<open>idx\<close>.\<close>

definition string_or_index :: "(rat \<Rightarrow> string) \<Rightarrow> jsval \<Rightarrow> nat \<Rightarrow> string result" where
  "string_or_index ns v idx = (if nullish v then Inr (string_of_nat idx) else js_String ns v)"

text \<open>
  \<^verbatim>\<open>images.map((img, idx) => String(img.id ?? img.filename ?? idx))\<close>, which is also
  \<^verbatim>\<open>images.map(img => String(img.id ?? img.filename ?? images.indexOf(img)))\<close>.
\<close>

definition image_ids :: "(rat \<Rightarrow> string) \<Rightarrow> image list \<Rightarrow> string list result" where
  "image_ids ns images =
     map_result
       (\<lambda>(idx, img). string_or_index ns (coalesce (image_id img) (image_filename img)) idx)
       (enumerate 0 images)"

text \<open>
  \<^verbatim>\<open>xs.every(p)\<close>: the elements are tested in order up to the first one that fails the
  test; a test that throws ends the scan with its error.
\<close>

fun every :: "('a \<Rightarrow> bool result) \<Rightarrow> 'a list \<Rightarrow> bool result" where
  "every p [] = Inr True"
| "every p (x # xs) = bind_result (p x) (\<lambda>b. if b then every p xs else Inr False)"

definition isValidSelection ::
  "(rat \<Rightarrow> string) \<Rightarrow> jsval \<Rightarrow> image list \<Rightarrow> nat \<Rightarrow> bool result" where
  "isValidSelection ns orderedIds images targetCount =
     (if \<not> isArray orderedIds \<or> length (elements orderedIds) \<noteq> targetCount then Inr False
      else bind_result (image_ids ns images) (\<lambda>ids.
           let imageIdSet = set ids
           in every (\<lambda>oid. bind_result (js_String ns oid) (\<lambda>s. Inr (s \<in> imageIdSet)))
                (elements orderedIds)))"

definition deterministicFallback ::
  "(rat \<Rightarrow> string) \<Rightarrow> image list \<Rightarrow> nat \<Rightarrow> string list result" where
  "deterministicFallback ns images targetCount = image_ids ns (take targetCount images)"

record shot =
  shot_id :: jsval
  role :: jsval
  reason :: jsval

text \<open>
  \<^verbatim>\<open>beats.find(b => String(b.id) === String(id))\<close>: the first beat whose id has the same
  text, \<^verbatim>\<open>undefined\<close> when there is none. The test reads \<^verbatim>\<open>b.id\<close>, which throws on a
  \<^verbatim>\<open>null\<close> entry, then converts the beat's id and then the ordered id, and either
  conversion may throw; a test that throws ends the scan with its error.
\<close>

fun find_beat :: "(rat \<Rightarrow> string) \<Rightarrow> jsval list \<Rightarrow> jsval \<Rightarrow> jsval result" where
  "find_beat ns [] oid = Inr JUndefined"
| "find_beat ns (b # bs) oid =
     bind_result (get_prop b ''id'') (\<lambda>b_id.
     bind_result (js_String ns b_id) (\<lambda>beat_text.
     bind_result (js_String ns oid) (\<lambda>id_text.
       if beat_text = id_text then Inr b else find_beat ns bs oid)))"

text \<open>\<^verbatim>\<open>beat?.k\<close>\<close>

definition opt_prop :: "jsval \<Rightarrow> string \<Rightarrow> jsval result" where
  "opt_prop v k = (if nullish v then Inr JUndefined else get_prop v k)"

text \<open>
  The position thresholds. The source compares the index with the double products
  \<^verbatim>\<open>n * 0.2\<close>, \<^verbatim>\<open>n * 0.6\<close> and \<^verbatim>\<open>n * 0.9\<close>. For an integer index these comparisons have
  the outcome of the exact ones (checked for every length up to two million: a product
  that is an integer in exact arithmetic is computed exactly, any other lies at least 0.1
  away from every integer), so the model compares integers.
\<close>

definition position_role :: "nat \<Rightarrow> nat \<Rightarrow> string" where
  "position_role idx n =
     (if 5 * idx < n then ''opening''
      else if 5 * idx < 3 * n then ''build''
      else if 10 * idx < 9 * n then ''turn''
      else ''resolution'')"

definition buildShots :: "(rat \<Rightarrow> string) \<Rightarrow> jsval list \<Rightarrow> jsval list \<Rightarrow> shot list result" where
  "buildShots ns orderedIds beats =
     map_result
       (\<lambda>(idx, oid).
          bind_result (find_beat ns beats oid) (\<lambda>beat.
          bind_result (opt_prop beat ''role'') (\<lambda>beat_role.
          bind_result (opt_prop beat ''reason'') (\<lambda>beat_reason.
            Inr \<lparr>shot_id = oid,
                 role = js_or beat_role (JStr (position_role idx (length orderedIds))),
                 reason = js_or beat_reason (JStr [])\<rparr>))))
       (enumerate 0 orderedIds)"

section \<open>Sequence endpoint: the handler\<close>

text \<open>The fixed-window rate limiter: the map is the module's state, \<open>now\<close> is \<^verbatim>\<open>Date.now()\<close>.\<close>

record rate_record =
  rl_count :: nat
  resetAt :: nat

record rate_limit =
  allowed :: bool
  remaining :: nat

definition RATE_LIMIT_WINDOW_MS :: nat where
  "RATE_LIMIT_WINDOW_MS = 10 * 60 * 1000"

definition RATE_LIMIT_MAX_REQUESTS :: nat where
  "RATE_LIMIT_MAX_REQUESTS = 30"

definition getRateLimitKey :: "string option \<Rightarrow> string" where
  "getRateLimitKey ip = (case ip of None \<Rightarrow> ''unknown'' | Some a \<Rightarrow> if a = [] then ''unknown'' else a)"

definition checkRateLimit ::
  "nat \<Rightarrow> string option \<Rightarrow> (string \<rightharpoonup> rate_record) \<Rightarrow> rate_limit \<times> (string \<rightharpoonup> rate_record)" where
  "checkRateLimit now ip rateLimitMap =
     (let key = getRateLimitKey ip;
          fresh = (\<lparr>allowed = True, remaining = RATE_LIMIT_MAX_REQUESTS - 1\<rparr>,
                   rateLimitMap(key \<mapsto> \<lparr>rl_count = 1, resetAt = now + RATE_LIMIT_WINDOW_MS\<rparr>))
      in case rateLimitMap key of
           None \<Rightarrow> fresh
         | Some r \<Rightarrow>
             if now > resetAt r then fresh
             else if rl_count r \<ge> RATE_LIMIT_MAX_REQUESTS
               then (\<lparr>allowed = False, remaining = 0\<rparr>, rateLimitMap)
             else (\<lparr>allowed = True, remaining = RATE_LIMIT_MAX_REQUESTS - (rl_count r + 1)\<rparr>,
                   rateLimitMap(key \<mapsto> r\<lparr>rl_count := rl_count r + 1\<rparr>)))"

text \<open>
  What the handler reads of the request: the method, the two address headers
  (\<open>None\<close> when \<^verbatim>\<open>headers.get\<close> gives \<^verbatim>\<open>null\<close>) and the outcome of \<^verbatim>\<open>req.json()\<close>. Of the
  environment it reads the clock and the API key. The awaited model call has resolved
  with a completion, given by the \<^verbatim>\<open>message.content\<close> of each of its choices, or has
  thrown; the prompt sent to it is not modelled.
\<close>

record request =
  http_method :: string
  x_forwarded_for :: "string option"
  x_real_ip :: "string option"
  json :: "jsval result"

record env =
  now :: nat
  OPENAI_API_KEY :: "string option"

record plan =
  theme :: jsval
  emotion_arc :: "jsval list"
  ordered_ids :: "string list"
  shots :: "shot list"
  selected :: "nat list"
  order :: "nat list"
  durations :: "rat list"
  transitions :: "string list"
  usedPlanner :: string
  error :: "string option"

text \<open>
  The response bodies: \<^verbatim>\<open>{error}\<close>, \<^verbatim>\<open>{error, message}\<close>, \<^verbatim>\<open>{ok: true, plan}\<close> and
  \<^verbatim>\<open>{ok: false, error}\<close>.
\<close>

datatype reply =
    ErrorReply string
  | RateLimitReply string string
  | PlanReply plan
  | FailureReply string

record response =
  status :: nat
  headers :: "(string \<times> string) list"
  body :: reply

definition content_type :: "string \<times> string" where
  "content_type = (''Content-Type'', ''application/json'')"

definition MAX_IMAGES :: nat where
  "MAX_IMAGES = 200"

definition clientIp :: "request \<Rightarrow> string option" where
  "clientIp req =
     (let real = (case x_real_ip req of None \<Rightarrow> None | Some a \<Rightarrow> if a = [] then None else Some a)
      in case x_forwarded_for req of
           None \<Rightarrow> real
         | Some f \<Rightarrow>
             (let first = trim (takeWhile (\<lambda>c. c \<noteq> CHR '','') f)
              in if first = [] then real else Some first))"

text \<open>
  Lines 164-174: one image per analysis result. Reading \<^verbatim>\<open>a.id\<close> throws on a \<^verbatim>\<open>null\<close>
  result; after it the other reads cannot throw. \<^verbatim>\<open>String\<close> and \<^verbatim>\<open>Number\<close> throw on an
  object they cannot convert. The properties of the literal are evaluated in the order
  written: the id, the filename, then the analysis bag.
\<close>

definition analysis_bag :: "(rat \<Rightarrow> string) \<Rightarrow> (string \<Rightarrow> jsval) \<Rightarrow> jsval \<Rightarrow> jsval result" where
  "analysis_bag ns sn a =
     bind_result (get_prop a ''subject'') (\<lambda>a_subject.
     bind_result (get_prop a ''caption'') (\<lambda>a_caption.
     bind_result (get_prop a ''mood'') (\<lambda>a_mood.
     bind_result (get_prop a ''composition'') (\<lambda>a_composition.
     bind_result (get_prop a ''visual_energy'') (\<lambda>a_visual_energy.
     bind_result (get_prop a ''visualWeight'') (\<lambda>a_visualWeight.
     bind_result
       (js_Number ns sn (coalesce (coalesce a_visual_energy a_visualWeight) (JNum 5))) (\<lambda>energy.
     bind_result (get_prop a ''best_role'') (\<lambda>a_best_role.
       Inr (JObj
         [(''subject'', js_or (js_or a_subject a_caption) (JStr [])),
          (''mood'', if isArray a_mood then a_mood else JArr []),
          (''composition'', js_or a_composition (JObj [])),
          (''visual_energy'', js_or energy (JNum 5)),
          (''best_role'', if isArray a_best_role then a_best_role else JArr [])])))))))))"

definition normalize ::
  "(rat \<Rightarrow> string) \<Rightarrow> (string \<Rightarrow> jsval) \<Rightarrow> jsval list \<Rightarrow> image list result" where
  "normalize ns sn analysisResults =
     map_result
       (\<lambda>(idx, a).
          bind_result (get_prop a ''id'') (\<lambda>a_id.
          bind_result (get_prop a ''filename'') (\<lambda>a_filename.
          bind_result (string_or_index ns (coalesce a_id a_filename) idx) (\<lambda>id_string.
          bind_result (analysis_bag ns sn a) (\<lambda>analysis.
            Inr \<lparr>image_id = JStr id_string,
                 image_filename = js_or a_filename (JStr (''image_'' @ string_of_nat idx)),
                 image_analysis = analysis\<rparr>)))))
       (enumerate 0 analysisResults)"

text \<open>
  \<^verbatim>\<open>xs.findIndex(p)\<close>: the index of the first element that passes the test, \<open>None\<close> for
  the source's \<open>-1\<close>.
\<close>

fun findIndex :: "('a \<Rightarrow> bool result) \<Rightarrow> 'a list \<Rightarrow> nat option result" where
  "findIndex p [] = Inr None"
| "findIndex p (x # xs) =
     bind_result (p x) (\<lambda>b.
       if b then Inr (Some 0)
       else bind_result (findIndex p xs) (\<lambda>r. Inr (map_option Suc r)))"

text \<open>Lines 250-256: the validated ordering, or the fallback ordering in its place.\<close>

definition final_ids ::
  "(rat \<Rightarrow> string) \<Rightarrow> jsval \<Rightarrow> image list \<Rightarrow> nat \<Rightarrow> jsval list result" where
  "final_ids ns selectedOrderedIds images targetCount =
     bind_result (isValidSelection ns selectedOrderedIds images targetCount) (\<lambda>valid.
       if \<not> valid
       then bind_result (deterministicFallback ns images targetCount) (\<lambda>ids. Inr (map JStr ids))
       else Inr (elements selectedOrderedIds))"

text \<open>
  Lines 258-290: the shots, the original indices, the plan and the reply. In
  \<^verbatim>\<open>String(img.id) === String(id)\<close> the right operand is already a string.
\<close>

definition assemble_plan ::
  "(rat \<Rightarrow> string) \<Rightarrow> image list \<Rightarrow> rate_limit \<Rightarrow> jsval \<Rightarrow> jsval list \<Rightarrow> jsval list
     \<Rightarrow> jsval list \<Rightarrow> response result" where
  "assemble_plan ns images rateLimit plan_theme plan_emotion_arc finalIds beats =
     bind_result (buildShots ns finalIds beats) (\<lambda>shots.
     bind_result (map_result (js_String ns) finalIds) (\<lambda>orderedIdsStr.
     bind_result
       (map_result
          (\<lambda>oid. bind_result
                   (findIndex (\<lambda>img. bind_result (js_String ns (image_id img))
                                        (\<lambda>img_text. Inr (img_text = oid))) images)
                   (\<lambda>idx. Inr (case idx of Some i \<Rightarrow> i | None \<Rightarrow> 0)))
          orderedIdsStr) (\<lambda>selectedIndices.
     Inr \<lparr>status = 200,
          headers = [content_type, (''X-RateLimit-Remaining'', string_of_nat (remaining rateLimit))],
          body = PlanReply
            \<lparr>theme = plan_theme,
             emotion_arc = plan_emotion_arc,
             ordered_ids = orderedIdsStr,
             shots = shots,
             selected = selectedIndices,
             order = [0..<length orderedIdsStr],
             durations = replicate (length orderedIdsStr) (38 / 10),
             transitions = replicate (nat (max 0 (int (length orderedIdsStr) - 1))) ''crossfade'',
             usedPlanner = ''ai'',
             error = None\<rparr>\<rparr>)))"

text \<open>
  Lines 234-256: the start of the inner \<^verbatim>\<open>try\<close> block, once the call has resolved.
  \<^verbatim>\<open>choices[0]\<close> is \<^verbatim>\<open>undefined\<close> for an empty list of choices.
\<close>

definition model_plan ::
  "(rat \<Rightarrow> string) \<Rightarrow> (string \<Rightarrow> jsval result) \<Rightarrow> image list \<Rightarrow> nat \<Rightarrow> rate_limit
     \<Rightarrow> string option list \<Rightarrow> response result" where
  "model_plan ns parse images targetCount rateLimit choices =
     bind_result
       (case choices of
          [] \<Rightarrow> Inl (type_error JUndefined ''message'')
        | c # _ \<Rightarrow> Inr (case c of None \<Rightarrow> [] | Some t \<Rightarrow> trim t)) (\<lambda>content.
     bind_result (deterministicFallback ns images targetCount) (\<lambda>fallbackIds.
     let fallbackPlan = JObj
           [(''orderedIds'', JArr (map JStr fallbackIds)),
            (''theme'', JStr []),
            (''emotion_arc'', JArr []),
            (''beats'', JArr [])]
     in
     bind_result (safeParseJSON parse content fallbackPlan) (\<lambda>raw.
     bind_result (get_prop raw ''orderedIds'') (\<lambda>raw_orderedIds.
     bind_result
       (if truthy raw_orderedIds then Inr raw_orderedIds
        else bind_result (get_prop raw ''ordered_ids'') (\<lambda>raw_ordered_ids.
               Inr (js_or raw_ordered_ids (JArr [])))) (\<lambda>selectedOrderedIds.
     bind_result (get_prop raw ''beats'') (\<lambda>raw_beats.
     bind_result (get_prop raw ''theme'') (\<lambda>raw_theme.
     bind_result (get_prop raw ''emotion_arc'') (\<lambda>raw_emotion_arc.
     bind_result (final_ids ns selectedOrderedIds images targetCount) (\<lambda>finalIds.
       assemble_plan ns images rateLimit
         (js_or raw_theme (JStr []))
         (if isArray raw_emotion_arc then elements raw_emotion_arc else [])
         finalIds
         (if isArray raw_beats then elements raw_beats else []))))))))))"

text \<open>
  Lines 292-342: the inner \<^verbatim>\<open>catch\<close> clause, the timeout route and the error route. What
  it throws itself goes to the outer \<^verbatim>\<open>catch\<close>.
\<close>

definition fallback_response ::
  "(rat \<Rightarrow> string) \<Rightarrow> image list \<Rightarrow> nat \<Rightarrow> js_error \<Rightarrow> response result" where
  "fallback_response ns images targetCount e =
     bind_result (deterministicFallback ns images targetCount) (\<lambda>fallbackIds.
     bind_result (buildShots ns (map JStr fallbackIds) []) (\<lambda>fallbackShots.
       Inr \<lparr>status = 200,
            headers = [content_type],
            body = PlanReply
              \<lparr>theme = JStr [],
               emotion_arc = [],
               ordered_ids = fallbackIds,
               shots = fallbackShots,
               selected = [0..<length fallbackIds],
               order = [0..<length fallbackIds],
               durations = replicate (length fallbackIds) (38 / 10),
               transitions = replicate (nat (max 0 (int (length fallbackIds) - 1))) ''crossfade'',
               usedPlanner = ''fallback'',
               error = (if error_name e = ''AbortError'' then None
                        else Some (error_message e))\<rparr>\<rparr>))"

text \<open>
  Lines 116-343: the body of the outer \<^verbatim>\<open>try\<close>. Line 145 and lines 177-184 only prepare
  the prompt and cannot throw: they read properties of values that are not \<^verbatim>\<open>null\<close>.
\<close>

definition handle_body ::
  "(rat \<Rightarrow> string) \<Rightarrow> (string \<Rightarrow> jsval) \<Rightarrow> (string \<Rightarrow> jsval result) \<Rightarrow> env
     \<Rightarrow> string option list result \<Rightarrow> rate_limit \<Rightarrow> request \<Rightarrow> response result" where
  "handle_body ns sn parse ev upstream rateLimit req =
     bind_result (json req) (\<lambda>body.
     bind_result (get_prop body ''analysisResults'') (\<lambda>analysisResults.
       if \<not> truthy analysisResults \<or> \<not> isArray analysisResults
         then Inr \<lparr>status = 400, headers = [content_type],
                   body = ErrorReply ''analysisResults array required''\<rparr>
       else if length (elements analysisResults) = 0
         then Inr \<lparr>status = 400, headers = [content_type],
                   body = ErrorReply ''analysisResults array cannot be empty''\<rparr>
       else if length (elements analysisResults) > MAX_IMAGES
         then Inr \<lparr>status = 400, headers = [content_type],
                   body = ErrorReply (''Too many images (max '' @ string_of_nat MAX_IMAGES @ '')'')\<rparr>
       else if OPENAI_API_KEY ev = None \<or> OPENAI_API_KEY ev = Some []
         then Inr \<lparr>status = 500, headers = [content_type],
                   body = ErrorReply ''Server configuration error''\<rparr>
       else
         bind_result (normalize ns sn (elements analysisResults)) (\<lambda>images.
         let targetCount = length images
         in try_catch
              (bind_result upstream (model_plan ns parse images targetCount rateLimit))
              (fallback_response ns images targetCount))))"

definition handler ::
  "(rat \<Rightarrow> string) \<Rightarrow> (string \<Rightarrow> jsval) \<Rightarrow> (string \<Rightarrow> jsval result) \<Rightarrow> env
     \<Rightarrow> string option list result \<Rightarrow> (string \<rightharpoonup> rate_record) \<Rightarrow> request
     \<Rightarrow> response \<times> (string \<rightharpoonup> rate_record)" where
  "handler ns sn parse ev upstream rateLimitMap req =
     (if http_method req \<noteq> ''POST''
        then (\<lparr>status = 405, headers = [content_type],
                body = ErrorReply ''Method not allowed''\<rparr>, rateLimitMap)
      else
        let (rateLimit, rateLimitMap') = checkRateLimit (now ev) (clientIp req) rateLimitMap
        in if \<not> allowed rateLimit
             then (\<lparr>status = 429,
                     headers = [content_type, (''X-RateLimit-Remaining'', ''0''),
                                (''Retry-After'', ''600'')],
                     body = RateLimitReply ''Rate limit exceeded''
                              ''Too many requests. Please try again later.''\<rparr>, rateLimitMap')
           else
             (case handle_body ns sn parse ev upstream rateLimit req of
                Inr res \<Rightarrow> (res, rateLimitMap')
              | Inl e \<Rightarrow>
                  (\<lparr>status = 500, headers = [content_type],
                    body = FailureReply (if error_message e = [] then ''Unknown error''
                                         else error_message e)\<rparr>, rateLimitMap')))"

section \<open>Vision endpoint: the per-photo loop\<close>

text \<open>
  The loop of lines 233-273 runs once the method, rate-limit, body, batch-cap and API-key
  gates have passed. A photo is what the endpoint documents:
  \<^verbatim>\<open>{filename: string, data: string, mimeType?: string}\<close>.
\<close>

record photo =
  filename :: string
  data :: string
  mimeType :: "string option"

definition createFallbackAnalysis :: "string \<Rightarrow> jsval" where
  "createFallbackAnalysis fname = JObj
     [(''filename'', JStr fname),
      (''subject'', JStr ''unknown''),
      (''composition'', JObj
         [(''framing'', JStr ''medium''), (''symmetry'', JStr ''medium''),
          (''leading_lines'', JBool False), (''negative_space'', JStr ''medium'')]),
      (''light'', JObj
         [(''key'', JStr ''mid-key''), (''contrast'', JStr ''medium''),
          (''directionality'', JStr ''ambient'')]),
      (''mood'', JArr []),
      (''visual_energy'', JNum 5),
      (''emotion_vector'', JObj
         [(''calm'', JNum (1 / 2)), (''tension'', JNum (1 / 2)), (''mystery'', JNum (1 / 2)),
          (''intimacy'', JNum (1 / 2)), (''awe'', JNum (1 / 2))]),
      (''motion_safe_zones'', JObj
         [(''center'', JBool True), (''left'', JBool True), (''right'', JBool True),
          (''top'', JBool True), (''bottom'', JBool True)]),
      (''recommended_move_types'', JArr [JStr ''hold'']),
      (''do_not'', JArr []),
      (''best_role'', JArr [])]"

text \<open>
  \<^verbatim>\<open>{filename, ...analysis}\<close>: the own enumerable properties of \<open>analysis\<close> are set on
  the new object after \<^verbatim>\<open>filename\<close>, a repeated key overwriting the value in place.
  An object spreads its properties, an array and a string their indexed elements, any
  other value nothing. The new object enumerates its properties in the engine's order.
\<close>

fun set_prop :: "(string \<times> jsval) list \<Rightarrow> string \<times> jsval \<Rightarrow> (string \<times> jsval) list" where
  "set_prop [] kv = [kv]"
| "set_prop (p # ps) kv = (if fst p = fst kv then kv # ps else p # set_prop ps kv)"

fun own_entries :: "jsval \<Rightarrow> (string \<times> jsval) list" where
  "own_entries (JObj kvs) = kvs"
| "own_entries (JArr xs) = map (\<lambda>(i, x). (string_of_nat i, x)) (enumerate 0 xs)"
| "own_entries (JStr t) = map (\<lambda>(i, c). (string_of_nat i, JStr [c])) (enumerate 0 t)"
| "own_entries v = []"

definition spread_onto :: "(string \<times> jsval) list \<Rightarrow> jsval \<Rightarrow> jsval" where
  "spread_onto props v = JObj (property_order (foldl set_prop props (own_entries v)))"

text \<open>
  The Responses API call: given the image URLs sent so far and the one sent now, it
  resolves with a response object or throws. Each call is recorded in the log of URLs.
\<close>

definition analyzeImage ::
  "(string \<Rightarrow> jsval result) \<Rightarrow> (string list \<Rightarrow> string \<Rightarrow> jsval result) \<Rightarrow> string list
     \<Rightarrow> string \<Rightarrow> string \<Rightarrow> string \<Rightarrow> jsval result \<times> string list" where
  "analyzeImage parse responses_create sent imageBase64 fname mime =
     (let image_url = ''data:'' @ mime @ '';base64,'' @ imageBase64
      in (try_catch
            (bind_result (responses_create sent image_url) (\<lambda>response.
             bind_result (get_prop response ''output_text'') (\<lambda>output_text.
             bind_result
               (if truthy output_text then Inr output_text
                else bind_result (get_prop response ''output'') (\<lambda>output.
                       Inr (js_or output (JStr [])))) (\<lambda>text.
             bind_result
               (case text of
                  JStr t \<Rightarrow> Inr (trim t)
                | _ \<Rightarrow> Inl (Error ''TypeError'' ''trim is not a function'')) (\<lambda>content.
             bind_result (safeParseJSON parse content (createFallbackAnalysis fname)) (\<lambda>analysis.
               Inr (spread_onto [(''filename'', JStr fname)] analysis)))))))
            (\<lambda>e. if error_name e = ''AbortError'' then Inr (createFallbackAnalysis fname)
                 else Inr (createFallbackAnalysis fname)),
          sent @ [image_url]))"

text \<open>
  \<^verbatim>\<open>toLowerCase()\<close> on 8-bit text: the ASCII capital letters and the Latin-1 capital
  letters (\<open>0xC0\<close> to \<open>0xDE\<close> without the multiplication sign \<open>0xD7\<close>) map to their small
  letters.
\<close>

definition capital_letters :: string where
  "capital_letters = ''ABCDEFGHIJKLMNOPQRSTUVWXYZ'' @
     [CHR 0xC0, CHR 0xC1, CHR 0xC2, CHR 0xC3, CHR 0xC4, CHR 0xC5, CHR 0xC6,
      CHR 0xC7, CHR 0xC8, CHR 0xC9, CHR 0xCA, CHR 0xCB, CHR 0xCC, CHR 0xCD,
      CHR 0xCE, CHR 0xCF, CHR 0xD0, CHR 0xD1, CHR 0xD2, CHR 0xD3, CHR 0xD4,
      CHR 0xD5, CHR 0xD6, CHR 0xD8, CHR 0xD9, CHR 0xDA, CHR 0xDB, CHR 0xDC,
      CHR 0xDD, CHR 0xDE]"

definition small_letters :: string where
  "small_letters = ''abcdefghijklmnopqrstuvwxyz'' @
     [CHR 0xE0, CHR 0xE1, CHR 0xE2, CHR 0xE3, CHR 0xE4, CHR 0xE5, CHR 0xE6,
      CHR 0xE7, CHR 0xE8, CHR 0xE9, CHR 0xEA, CHR 0xEB, CHR 0xEC, CHR 0xED,
      CHR 0xEE, CHR 0xEF, CHR 0xF0, CHR 0xF1, CHR 0xF2, CHR 0xF3, CHR 0xF4,
      CHR 0xF5, CHR 0xF6, CHR 0xF8, CHR 0xF9, CHR 0xFA, CHR 0xFB, CHR 0xFC,
      CHR 0xFD, CHR 0xFE]"

definition toLowerCase :: "string \<Rightarrow> string" where
  "toLowerCase t =
     map (\<lambda>c. case map_of (zip capital_letters small_letters) c of
                Some l \<Rightarrow> l
              | None \<Rightarrow> c) t"

definition photo_mimeType :: "photo \<Rightarrow> string" where
  "photo_mimeType p =
     (let last_part = toLowerCase (rev (takeWhile (\<lambda>c. c \<noteq> CHR ''.'') (rev (filename p))));
          ext = (if last_part = [] then ''jpg'' else last_part)
      in case mimeType p of
           Some m \<Rightarrow> if m \<noteq> [] then m
                     else if ext = ''png'' then ''image/png''
                     else if ext = ''webp'' then ''image/webp'' else ''image/jpeg''
         | None \<Rightarrow> if ext = ''png'' then ''image/png''
                   else if ext = ''webp'' then ''image/webp'' else ''image/jpeg'')"

text \<open>\<^verbatim>\<open>photo.data.includes(',') ? photo.data.split(',')[1] : photo.data\<close>\<close>

definition base64Data :: "photo \<Rightarrow> string" where
  "base64Data p =
     (if CHR '','' \<in> set (data p)
      then takeWhile (\<lambda>c. c \<noteq> CHR '','') (tl (dropWhile (\<lambda>c. c \<noteq> CHR '','') (data p)))
      else data p)"

text \<open>
  The loop: \<open>analysisResults\<close> grows by one entry per photo; \<open>sent\<close> is the log of the
  calls made upstream.
\<close>

fun analyze_photos ::
  "(string \<Rightarrow> jsval result) \<Rightarrow> (string list \<Rightarrow> string \<Rightarrow> jsval result) \<Rightarrow> photo list
     \<Rightarrow> jsval list \<times> string list \<Rightarrow> jsval list \<times> string list" where
  "analyze_photos parse responses_create [] (analysisResults, sent) = (analysisResults, sent)"
| "analyze_photos parse responses_create (p # photos) (analysisResults, sent) =
     (if length (base64Data p) > 13300000
      then analyze_photos parse responses_create photos
             (analysisResults @ [createFallbackAnalysis (filename p)], sent)
      else
        let (outcome, sent') =
              analyzeImage parse responses_create sent (base64Data p) (filename p) (photo_mimeType p)
        in analyze_photos parse responses_create photos
             (analysisResults @
                [case outcome of Inr analysis \<Rightarrow> analysis
                               | Inl e \<Rightarrow> createFallbackAnalysis (filename p)],
              sent'))"

text \<open>Lines 275-295: the reply, \<^verbatim>\<open>{error}\<close> or \<^verbatim>\<open>{ok: true, results, count}\<close>.\<close>

datatype vision_reply =
    VisionError string
  | VisionOk "jsval list" nat

definition vision_batch ::
  "(string \<Rightarrow> jsval result) \<Rightarrow> (string list \<Rightarrow> string \<Rightarrow> jsval result) \<Rightarrow> photo list
     \<Rightarrow> (nat \<times> vision_reply) \<times> string list" where
  "vision_batch parse responses_create photos =
     (let (analysisResults, sent) = analyze_photos parse responses_create photos ([], [])
      in if length analysisResults \<noteq> length photos
         then ((500, VisionError (''Analysis incomplete: '' @ string_of_nat (length analysisResults)
                 @ ''/'' @ string_of_nat (length photos) @ '' images analyzed'')), sent)
         else ((200, VisionOk analysisResults (length analysisResults)), sent))"

section \<open>Notions used to state the properties\<close>

text \<open>The value of a property of a value that is neither \<^verbatim>\<open>null\<close> nor \<^verbatim>\<open>undefined\<close>.\<close>

definition prop_of :: "jsval \<Rightarrow> string \<Rightarrow> jsval" where
  "prop_of v k = (case get_prop v k of Inr x \<Rightarrow> x | Inl e \<Rightarrow> JUndefined)"

text \<open>Whether \<^verbatim>\<open>String(v)\<close> returns, and the text it returns.\<close>

definition has_text :: "(rat \<Rightarrow> string) \<Rightarrow> jsval \<Rightarrow> bool" where
  "has_text ns v = (case js_String ns v of Inr s \<Rightarrow> True | Inl e \<Rightarrow> False)"

definition text_of :: "(rat \<Rightarrow> string) \<Rightarrow> jsval \<Rightarrow> string" where
  "text_of ns v = (case js_String ns v of Inr s \<Rightarrow> s | Inl e \<Rightarrow> [])"

text \<open>Whether \<^verbatim>\<open>Number(v)\<close> returns.\<close>

definition has_number :: "(rat \<Rightarrow> string) \<Rightarrow> (string \<Rightarrow> jsval) \<Rightarrow> jsval \<Rightarrow> bool" where
  "has_number ns sn v = (case js_Number ns sn v of Inr n \<Rightarrow> True | Inl e \<Rightarrow> False)"

text \<open>An image whose id is a string, as the handler builds it, and that string.\<close>

definition has_string_id :: "image \<Rightarrow> bool" where
  "has_string_id img = (case image_id img of JStr s \<Rightarrow> True | _ \<Rightarrow> False)"

definition id_text :: "image \<Rightarrow> string" where
  "id_text img = (case image_id img of JStr s \<Rightarrow> s | _ \<Rightarrow> [])"

text \<open>
  A number rendering for the examples: the decimal numeral of an integer, which is what
  \<^verbatim>\<open>String\<close> gives for integers of magnitude below \<open>10^21\<close>.
\<close>

definition integer_text :: "rat \<Rightarrow> string" where
  "integer_text q =
     (if q < 0 then ''-'' @ string_of_nat (nat \<lfloor>- q\<rfloor>) else string_of_nat (nat \<lfloor>q\<rfloor>))"

text \<open>
  A text-to-number conversion for the examples: it agrees with \<^verbatim>\<open>Number\<close> on the texts of
  the table; the examples convert no other text.
\<close>

definition number_table :: "(string \<times> jsval) list \<Rightarrow> string \<Rightarrow> jsval" where
  "number_table table t = (case map_of table t of Some v \<Rightarrow> v | None \<Rightarrow> JNaN)"

definition example_numbers :: "string \<Rightarrow> jsval" where
  "example_numbers = number_table [(''8'', JNum 8)]"

text \<open>
  A parser for the examples: it agrees with \<^verbatim>\<open>JSON.parse\<close> on the texts of the table and
  throws a SyntaxError on any other text.
\<close>

definition parse_table :: "(string \<times> jsval) list \<Rightarrow> string \<Rightarrow> jsval result" where
  "parse_table table t =
     (case map_of table t of
        Some v \<Rightarrow> Inr v
      | None \<Rightarrow> Inl (Error ''SyntaxError'' ''Unexpected token''))"

text \<open>
  The position thresholds as the specification words them: the first 20% of the positions
  open, the next 40% build, the next 30% turn, the last 10% resolve.
\<close>

definition quantile_role :: "nat \<Rightarrow> nat \<Rightarrow> string" where
  "quantile_role idx n =
     (if real idx < 0.2 * real n then ''opening''
      else if real idx < 0.6 * real n then ''build''
      else if real idx < 0.9 * real n then ''turn''
      else ''resolution'')"

text \<open>
  A request that passes every gate of the sequence handler and so reaches the model call:
  a POST within its rate limit, on a deployment with an API key, whose body is an object
  with 1 to 200 analysis results, on which the normalization of lines 164-174 does not
  throw. The images are the ones that normalization builds.
\<close>

definition reaches_model ::
  "(rat \<Rightarrow> string) \<Rightarrow> (string \<Rightarrow> jsval) \<Rightarrow> env \<Rightarrow> (string \<rightharpoonup> rate_record) \<Rightarrow> request
     \<Rightarrow> jsval list \<Rightarrow> bool" where
  "reaches_model ns sn ev rateLimitMap req analysisResults =
     (http_method req = ''POST''
      \<and> allowed (fst (checkRateLimit (now ev) (clientIp req) rateLimitMap))
      \<and> (case json req of
            Inr b \<Rightarrow> get_prop b ''analysisResults'' = Inr (JArr analysisResults)
          | Inl e \<Rightarrow> False)
      \<and> analysisResults \<noteq> []
      \<and> length analysisResults \<le> 200
      \<and> (case OPENAI_API_KEY ev of Some k \<Rightarrow> k \<noteq> [] | None \<Rightarrow> False)
      \<and> (case normalize ns sn analysisResults of Inr images \<Rightarrow> True | Inl e \<Rightarrow> False))"

definition request_images :: "(rat \<Rightarrow> string) \<Rightarrow> (string \<Rightarrow> jsval) \<Rightarrow> jsval list \<Rightarrow> image list" where
  "request_images ns sn analysisResults =
     (case normalize ns sn analysisResults of Inr images \<Rightarrow> images | Inl e \<Rightarrow> [])"

text \<open>The plan of a reply \<^verbatim>\<open>{ok: true, plan}\<close>.\<close>

definition reply_plan :: "response \<Rightarrow> plan option" where
  "reply_plan res = (case body res of PlanReply p \<Rightarrow> Some p | _ \<Rightarrow> None)"

text \<open>The ordering and the beats the handler reads off a parsed model answer.\<close>

definition answer_ordering :: "jsval \<Rightarrow> jsval" where
  "answer_ordering raw =
     js_or (js_or (prop_of raw ''orderedIds'') (prop_of raw ''ordered_ids'')) (JArr [])"

definition answer_beats :: "jsval \<Rightarrow> jsval list" where
  "answer_beats raw = (if isArray (prop_of raw ''beats'') then elements (prop_of raw ''beats'') else [])"

text \<open>The photos the vision loop answers without a call, and the URL a call carries.\<close>

definition oversize :: "photo \<Rightarrow> bool" where
  "oversize p = (length (base64Data p) > 13300000)"

definition image_url :: "photo \<Rightarrow> string" where
  "image_url p = ''data:'' @ photo_mimeType p @ '';base64,'' @ base64Data p"

text \<open>
  The analysis bag of a result that carries none of its fields, and three images as the
  handler builds them, with the ids \<open>a\<close>, \<open>b\<close> and \<open>7\<close>.
\<close>

definition default_analysis :: jsval where
  "default_analysis = JObj
     [(''subject'', JStr []), (''mood'', JArr []), (''composition'', JObj []),
      (''visual_energy'', JNum 5), (''best_role'', JArr [])]"

definition three_images :: "image list" where
  "three_images =
     [\<lparr>image_id = JStr ''a'', image_filename = JStr ''a.jpg'', image_analysis = default_analysis\<rparr>,
      \<lparr>image_id = JStr ''b'', image_filename = JStr ''b.jpg'', image_analysis = default_analysis\<rparr>,
      \<lparr>image_id = JStr ''7'', image_filename = JStr ''image_2'', image_analysis = default_analysis\<rparr>]"

text \<open>Two images that carry the same id.\<close>

definition twin_images :: "image list" where
  "twin_images =
     [\<lparr>image_id = JStr ''a'', image_filename = JStr ''a.jpg'', image_analysis = default_analysis\<rparr>,
      \<lparr>image_id = JStr ''a'', image_filename = JStr ''a2.jpg'', image_analysis = default_analysis\<rparr>]"

text \<open>
  A request with three analysis results, identified \<open>a\<close>, \<open>b\<close> and \<open>c\<close>, sent to a
  deployment with an API key and an empty rate-limit map.
\<close>

definition three_results :: "jsval list" where
  "three_results = [JObj [(''id'', JStr ''a'')], JObj [(''id'', JStr ''b'')], JObj [(''id'', JStr ''c'')]]"

definition post_request :: "jsval list \<Rightarrow> request" where
  "post_request analysisResults =
     \<lparr>http_method = ''POST'', x_forwarded_for = None, x_real_ip = None,
      json = Inr (JObj [(''analysisResults'', JArr analysisResults)])\<rparr>"

definition deployment :: env where
  "deployment = \<lparr>now = 0, OPENAI_API_KEY = Some ''key''\<rparr>"

text \<open>
  Model answers for that request and what \<^verbatim>\<open>JSON.parse\<close> makes of them: one repeats an id
  three times, one is an id short, one misses an id and duplicates another, one is an id
  short and carries a theme, an emotion arc and a beat, one orders an object that has
  no text, and one is an id short and carries \<^verbatim>\<open>null\<close> for a beat.
\<close>

definition repeated_answer :: string where
  \<open>repeated_answer = ''{"orderedIds":["a","a","a"]}''\<close>

definition short_answer :: string where
  \<open>short_answer = ''{"orderedIds":["a","b"]}''\<close>

definition lossy_answer :: string where
  \<open>lossy_answer = ''{"orderedIds":["a","a","b"]}''\<close>

definition themed_answer :: string where
  \<open>themed_answer =
     ''{"orderedIds":["a","b"],"theme":"sea","emotion_arc":[{"beat":"turn","ids":["b"]}],"beats":[{"id":"b","role":"climax","reason":"peak"}]}''\<close>

definition themed_plan :: jsval where
  "themed_plan = JObj
     [(''orderedIds'', JArr [JStr ''a'', JStr ''b'']),
      (''theme'', JStr ''sea''),
      (''emotion_arc'', JArr [JObj [(''beat'', JStr ''turn''), (''ids'', JArr [JStr ''b''])]]),
      (''beats'', JArr [JObj [(''id'', JStr ''b''), (''role'', JStr ''climax''),
                               (''reason'', JStr ''peak'')]])]"

definition opaque_answer :: string where
  \<open>opaque_answer = ''{"orderedIds":[{"toString":1},"b","c"]}''\<close>

definition opaque_plan :: jsval where
  "opaque_plan = JObj
     [(''orderedIds'', JArr [JObj [(''toString'', JNum 1)], JStr ''b'', JStr ''c''])]"

definition null_beat_answer :: string where
  \<open>null_beat_answer = ''{"orderedIds":["a","b"],"beats":[null]}''\<close>

definition null_beat_plan :: jsval where
  "null_beat_plan = JObj [(''orderedIds'', JArr [JStr ''a'', JStr ''b'']), (''beats'', JArr [JNull])]"

definition model_answers :: "(string \<times> jsval) list" where
  "model_answers =
     [(repeated_answer, JObj [(''orderedIds'', JArr [JStr ''a'', JStr ''a'', JStr ''a''])]),
      (short_answer, JObj [(''orderedIds'', JArr [JStr ''a'', JStr ''b''])]),
      (lossy_answer, JObj [(''orderedIds'', JArr [JStr ''a'', JStr ''a'', JStr ''b''])]),
      (themed_answer, themed_plan),
      (opaque_answer, opaque_plan),
      (null_beat_answer, null_beat_plan)]"

text \<open>
  Ten ordered ids and three beats: one names the id 3 as a string and carries a role and a
  reason, one names the id 4 and carries neither, one is not an object.
\<close>

definition ten_ids :: "jsval list" where
  "ten_ids = [JNum 0, JNum 1, JNum 2, JNum 3, JNum 4, JNum 5, JNum 6, JNum 7, JNum 8, JNum 9]"

definition some_beats :: "jsval list" where
  "some_beats =
     [JObj [(''id'', JStr ''3''), (''role'', JStr ''climax''), (''reason'', JStr ''peak'')],
      JObj [(''id'', JNum 4)],
      JStr ''noise'']"

text \<open>
  Analysis results for the id derivation: two that carry the same id, two of which the
  second has no id and sits at the index the first one names, three without id or
  filename, and three of which the first carries a filename only, the second a numeric id
  and a filename, and the third neither but a visual energy written as a string.
\<close>

definition duplicate_results :: "jsval list" where
  "duplicate_results = [JObj [(''id'', JStr ''a'')], JObj [(''id'', JStr ''a'')]]"

definition clashing_results :: "jsval list" where
  "clashing_results = [JObj [(''id'', JStr ''1'')], JObj [(''subject'', JStr ''sea'')]]"

definition bare_results :: "jsval list" where
  "bare_results = [JObj [], JObj [(''subject'', JStr ''sea'')], JBool True]"

definition named_results :: "jsval list" where
  "named_results =
     [JObj [(''filename'', JStr ''sea.jpg'')],
      JObj [(''id'', JNum 7), (''filename'', JStr ''hill.jpg'')],
      JObj [(''visual_energy'', JStr ''8'')]]"

text \<open>
  A vision batch of three photos, the second with a payload of 13,300,001 characters, and
  an upstream that answers every call with the same analysis text.
\<close>

definition big_payload :: string where
  "big_payload = replicate 13300001 (CHR ''A'')"

definition photo_batch :: "photo list" where
  "photo_batch =
     [\<lparr>filename = ''cat.png'', data = ''data:image/png;base64,AAAA'', mimeType = None\<rparr>,
      \<lparr>filename = ''big.jpg'', data = big_payload, mimeType = Some ''image/jpeg''\<rparr>,
      \<lparr>filename = ''dog.webp'', data = ''BBBB'', mimeType = None\<rparr>]"

definition pet_answer :: string where
  \<open>pet_answer = ''{"subject":"pet"}''\<close>

definition vision_upstream :: "string list \<Rightarrow> string \<Rightarrow> jsval result" where
  "vision_upstream sent url = Inr (JObj [(''output_text'', JStr pet_answer)])"

definition vision_parse :: "string \<Rightarrow> jsval result" where
  "vision_parse = parse_table [(pet_answer, JObj [(''subject'', JStr ''pet'')])]"

section \<open>The Response Parser\<close>








text \<open>
  C5. \<^verbatim>\<open>safeParseJSON\<close> never throws: for every text, every fallback value and whatever
  the strict parser does, it returns a value, which is the strict parse of the cleaned
  text when that parse succeeds and the fallback value itself when it throws.
\<close>

theorem safeParseJSON_total:
  "\<exists>v. safeParseJSON parse jsonString fallback = Inr v
       \<and> (parse (cleaned jsonString) = Inr v
          \<or> (\<exists>e. parse (cleaned jsonString) = Inl e) \<and> v = fallback)"
  by (cases "parse (cleaned jsonString)") (simp_all add: safeParseJSON_def try_catch_def)

















section \<open>Output Validator and Fallback Orderer\<close>

lemma bind_result_Inr [simp]: "bind_result (Inr v) f = f v"
  by (simp add: bind_result_def)

lemma bind_result_Inl [simp]: "bind_result (Inl e) f = Inl e"
  by (simp add: bind_result_def)

lemma bind_result_InrE:
  assumes "bind_result m f = Inr r"
  obtains v where "m = Inr v" and "f v = Inr r"
  using assms by (cases m) auto

lemma map_result_Inr:
  "map_result f xs = Inr ys \<longleftrightarrow> length ys = length xs \<and> (\<forall>i<length xs. f (xs ! i) = Inr (ys ! i))"
proof (induction xs arbitrary: ys)
  case Nil
  then show ?case by auto
next
  case (Cons x xs)
  show ?case
  proof (cases "f x")
    case (Inl e)
    then show ?thesis by auto
  next
    case (Inr y)
    show ?thesis
    proof (cases "map_result f xs")
      case (Inl e)
      with Cons [of "tl ys"] Inr show ?thesis
        by (cases ys) (auto simp: nth_Cons split: nat.splits)
    next
      case r: (Inr zs)
      with Cons [of zs] Cons [of "tl ys"] Inr show ?thesis
        by (cases ys) (auto simp: nth_Cons less_Suc_eq_0_disj)
    qed
  qed
qed

lemma map_result_total:
  "(\<And>x. x \<in> set xs \<Longrightarrow> f x = Inr (g x)) \<Longrightarrow> map_result f xs = Inr (map g xs)"
  by (induction xs) simp_all

lemma map_result_Inl:
  "x \<in> set xs \<Longrightarrow> f x = Inl e \<Longrightarrow> \<exists>e'. map_result f xs = Inl e'"
proof (induction xs)
  case Nil
  then show ?case by simp
next
  case (Cons y ys)
  show ?case
  proof (cases "f y")
    case (Inl a)
    then show ?thesis by simp
  next
    case (Inr b)
    with Cons obtain e' where "map_result f ys = Inl e'" by auto
    with Inr show ?thesis by simp
  qed
qed

lemma isArray_iff: "isArray v \<longleftrightarrow> (\<exists>xs. v = JArr xs)"
  by (cases v) auto

lemma has_text_Inr: "js_String ns v = Inr s \<Longrightarrow> has_text ns v \<and> text_of ns v = s"
  by (simp add: has_text_def text_of_def)

lemma has_text_iff: "has_text ns v \<longleftrightarrow> js_String ns v = Inr (text_of ns v)"
  by (cases "js_String ns v") (simp_all add: has_text_def text_of_def)

lemma no_text_iff: "\<not> has_text ns v \<longleftrightarrow> (\<exists>e. js_String ns v = Inl e)"
  by (cases "js_String ns v") (simp_all add: has_text_def)

text \<open>The scan of \<^verbatim>\<open>every\<close>: all elements pass, or the first that does not decides.\<close>

lemma every_True_iff: "every p xs = Inr True \<longleftrightarrow> (\<forall>x\<in>set xs. p x = Inr True)"
proof (induction xs)
  case Nil
  then show ?case by simp
next
  case (Cons x xs)
  show ?case
  proof (cases "p x")
    case (Inl e)
    then show ?thesis by simp
  next
    case (Inr b)
    with Cons show ?thesis by (cases b) simp_all
  qed
qed

lemma every_first:
  "\<forall>y\<in>set pre. p y = Inr True \<Longrightarrow> p x \<noteq> Inr True \<Longrightarrow> every p (pre @ x # post) = p x"
proof (induction pre)
  case Nil
  then show ?case by (cases "p x") auto
next
  case (Cons y ys)
  then show ?case by simp
qed

lemma member_test:
  "bind_result (js_String ns oid) (\<lambda>s. Inr (s \<in> S)) = Inr True
     \<longleftrightarrow> has_text ns oid \<and> text_of ns oid \<in> S"
  by (cases "js_String ns oid") (simp_all add: has_text_def text_of_def)

lemma member_test_False:
  "has_text ns oid \<Longrightarrow> text_of ns oid \<notin> S \<Longrightarrow>
   bind_result (js_String ns oid) (\<lambda>s. Inr (s \<in> S)) = Inr False"
  by (cases "js_String ns oid") (simp_all add: has_text_def text_of_def)

lemma isValidSelection_array:
  assumes "image_ids ns images = Inr ids" and "length xs = t"
  shows "isValidSelection ns (JArr xs) images t =
     every (\<lambda>oid. bind_result (js_String ns oid) (\<lambda>s. Inr (s \<in> set ids))) xs"
  using assms by (simp add: isValidSelection_def)

lemma isValidSelection_not_array:
  "\<not> isArray v \<Longrightarrow> isValidSelection ns v images t = Inr False"
  by (simp add: isValidSelection_def)

lemma isValidSelection_length:
  "length xs \<noteq> t \<Longrightarrow> isValidSelection ns (JArr xs) images t = Inr False"
  by (simp add: isValidSelection_def)

lemma isValidSelection_True_iff:
  assumes "image_ids ns images = Inr ids"
  shows "isValidSelection ns c images t = Inr True \<longleftrightarrow>
     isArray c \<and> length (elements c) = t
     \<and> (\<forall>oid\<in>set (elements c). has_text ns oid \<and> text_of ns oid \<in> set ids)"
proof (cases "isArray c \<and> length (elements c) = t")
  case True
  then obtain xs where c: "c = JArr xs" and l: "length xs = t" by (auto simp: isArray_iff)
  show ?thesis
    unfolding c using l
    by (simp add: isValidSelection_array [OF assms l] every_True_iff member_test)
next
  case False
  then show ?thesis by (auto simp: isValidSelection_def)
qed

lemma image_ids_Inr:
  "image_ids ns images = Inr ids \<longleftrightarrow>
     length ids = length images
     \<and> (\<forall>i<length images.
          string_or_index ns (coalesce (image_id (images ! i)) (image_filename (images ! i))) i
            = Inr (ids ! i))"
  by (auto simp: image_ids_def map_result_Inr nth_enumerate_eq)

lemma has_string_id_iff: "has_string_id img \<longleftrightarrow> image_id img = JStr (id_text img)"
  by (cases "image_id img") (simp_all add: has_string_id_def id_text_def)

lemma image_ids_strings:
  assumes "list_all has_string_id images"
  shows "image_ids ns images = Inr (map id_text images)"
proof -
  have "string_or_index ns (coalesce (image_id (images ! i)) (image_filename (images ! i))) i
      = Inr (map id_text images ! i)" if "i < length images" for i
  proof -
    have "has_string_id (images ! i)" using assms that by (simp add: list_all_length)
    then have "image_id (images ! i) = JStr (id_text (images ! i))"
      by (simp add: has_string_id_iff)
    then show ?thesis
      using that by (simp add: string_or_index_def coalesce_def nullish_def)
  qed
  then show ?thesis by (simp add: image_ids_Inr)
qed

lemma length_three_images: "length three_images = 3"
  by (simp add: three_images_def)

lemma three_images_strings: "list_all has_string_id three_images"
  by (simp add: three_images_def has_string_id_def)

lemma image_ids_three: "image_ids ns three_images = Inr [''a'', ''b'', ''7'']"
  using image_ids_strings [OF three_images_strings, of ns]
  by (simp add: three_images_def id_text_def)

text \<open>
  C3, as stated, fails: the validator does not return for every candidate. An element
  that is an object with a property named \<^verbatim>\<open>toString\<close> has no text, \<^verbatim>\<open>String\<close> throws on
  it, and so does the validator: a candidate of the right length with such a foreign
  element is not answered with false.
\<close>

theorem isValidSelection_raises_counterexample:
  "isValidSelection integer_text
       (JArr [JObj [(''toString'', JNum 1)], JStr ''b'', JStr ''a'']) three_images 3
     = Inl (Error ''TypeError'' ''Cannot convert object to primitive value'')
   \<and> isValidSelection integer_text
       (JArr [JObj [(''toString'', JNum 1)], JStr ''b'', JStr ''a'']) three_images 3
     \<noteq> Inr False"
  by (simp add: isValidSelection_def image_ids_three primitive_error_def)

text \<open>
  C3, amended. Where the item ids can be computed, \<^verbatim>\<open>isValidSelection\<close> returns true
  exactly when the candidate is an array of \<open>targetCount\<close> elements each of which has a
  text that is an item id. It returns false for a candidate that is not an array (absent
  or scalar), for the empty candidate when the count is positive and for a candidate of
  the wrong length. For an array of the right length the elements are scanned in order:
  if the first element that is not an item id has a text, the answer is false (a foreign
  id); if it has none, the validator throws what \<^verbatim>\<open>String\<close> throws. It accepts every
  permutation of the item ids, and also every candidate of the right length made of item
  ids with repeats. When an item id cannot be computed, it throws for every array of the
  right length.
\<close>

theorem isValidSelection_spec:
  "(image_ids ns images = Inr ids \<longrightarrow>
      (isValidSelection ns orderedIds images targetCount = Inr True \<longleftrightarrow>
         isArray orderedIds \<and> length (elements orderedIds) = targetCount
         \<and> (\<forall>oid\<in>set (elements orderedIds). has_text ns oid \<and> text_of ns oid \<in> set ids)))
   \<and> (\<not> isArray orderedIds \<longrightarrow> isValidSelection ns orderedIds images targetCount = Inr False)
   \<and> (0 < targetCount \<longrightarrow> isValidSelection ns (JArr []) images targetCount = Inr False)
   \<and> (length xs \<noteq> targetCount \<longrightarrow> isValidSelection ns (JArr xs) images targetCount = Inr False)
   \<and> (image_ids ns images = Inr ids \<and> length (pre @ foreign # post) = targetCount
        \<and> list_all (\<lambda>oid. has_text ns oid \<and> text_of ns oid \<in> set ids) pre
        \<and> has_text ns foreign \<and> text_of ns foreign \<notin> set ids
        \<longrightarrow> isValidSelection ns (JArr (pre @ foreign # post)) images targetCount = Inr False)
   \<and> (image_ids ns images = Inr ids \<and> length (pre @ opaque # post) = targetCount
        \<and> list_all (\<lambda>oid. has_text ns oid \<and> text_of ns oid \<in> set ids) pre
        \<and> js_String ns opaque = Inl e
        \<longrightarrow> isValidSelection ns (JArr (pre @ opaque # post)) images targetCount = Inl e)
   \<and> (image_ids ns images = Inr ids \<and> list_all (has_text ns) xs
        \<and> mset (map (text_of ns) xs) = mset ids
        \<longrightarrow> isValidSelection ns (JArr xs) images (length images) = Inr True)
   \<and> (image_ids ns images = Inr ids \<and> length xs = targetCount \<and> list_all (has_text ns) xs
        \<and> set (map (text_of ns) xs) \<subseteq> set ids \<and> \<not> distinct (map (text_of ns) xs)
        \<longrightarrow> isValidSelection ns (JArr xs) images targetCount = Inr True)
   \<and> (image_ids ns images = Inl e \<and> length xs = targetCount
        \<longrightarrow> isValidSelection ns (JArr xs) images targetCount = Inl e)"
proof (intro conjI impI)
  assume "image_ids ns images = Inr ids"
  then show "isValidSelection ns orderedIds images targetCount = Inr True \<longleftrightarrow>
         isArray orderedIds \<and> length (elements orderedIds) = targetCount
         \<and> (\<forall>oid\<in>set (elements orderedIds). has_text ns oid \<and> text_of ns oid \<in> set ids)"
    by (rule isValidSelection_True_iff)
next
  assume "\<not> isArray orderedIds"
  then show "isValidSelection ns orderedIds images targetCount = Inr False"
    by (rule isValidSelection_not_array)
next
  assume "0 < targetCount"
  then show "isValidSelection ns (JArr []) images targetCount = Inr False"
    by (simp add: isValidSelection_length)
next
  assume "length xs \<noteq> targetCount"
  then show "isValidSelection ns (JArr xs) images targetCount = Inr False"
    by (rule isValidSelection_length)
next
  assume a: "image_ids ns images = Inr ids \<and> length (pre @ foreign # post) = targetCount
        \<and> list_all (\<lambda>oid. has_text ns oid \<and> text_of ns oid \<in> set ids) pre
        \<and> has_text ns foreign \<and> text_of ns foreign \<notin> set ids"
  let ?p = "\<lambda>oid. bind_result (js_String ns oid) (\<lambda>s. Inr (s \<in> set ids))"
  have pre: "\<forall>y\<in>set pre. ?p y = Inr True"
    using a by (simp add: list_all_iff member_test)
  have x: "?p foreign = Inr False"
    using a by (simp add: member_test_False)
  have "every ?p (pre @ foreign # post) = ?p foreign"
    using pre x by (intro every_first) simp_all
  then show "isValidSelection ns (JArr (pre @ foreign # post)) images targetCount = Inr False"
    using a x by (simp only: isValidSelection_array)
next
  assume a: "image_ids ns images = Inr ids \<and> length (pre @ opaque # post) = targetCount
        \<and> list_all (\<lambda>oid. has_text ns oid \<and> text_of ns oid \<in> set ids) pre
        \<and> js_String ns opaque = Inl e"
  let ?p = "\<lambda>oid. bind_result (js_String ns oid) (\<lambda>s. Inr (s \<in> set ids))"
  have pre: "\<forall>y\<in>set pre. ?p y = Inr True"
    using a by (simp add: list_all_iff member_test)
  have x: "?p opaque = Inl e"
    using a by simp
  have "every ?p (pre @ opaque # post) = ?p opaque"
    using pre x by (intro every_first) simp_all
  then show "isValidSelection ns (JArr (pre @ opaque # post)) images targetCount = Inl e"
    using a x by (simp only: isValidSelection_array)
next
  assume a: "image_ids ns images = Inr ids \<and> list_all (has_text ns) xs
        \<and> mset (map (text_of ns) xs) = mset ids"
  then have "length (map (text_of ns) xs) = length ids"
    by (intro mset_eq_length) simp
  moreover have "length ids = length images"
    using a by (simp add: image_ids_Inr)
  ultimately have l: "length xs = length images" by simp
  from a have "set (map (text_of ns) xs) = set ids"
    by (intro mset_eq_setD) simp
  then have "\<forall>oid\<in>set xs. text_of ns oid \<in> set ids" by auto
  with a l show "isValidSelection ns (JArr xs) images (length images) = Inr True"
    by (simp add: isValidSelection_True_iff [where ids = ids] list_all_iff)
next
  assume a: "image_ids ns images = Inr ids \<and> length xs = targetCount \<and> list_all (has_text ns) xs
        \<and> set (map (text_of ns) xs) \<subseteq> set ids \<and> \<not> distinct (map (text_of ns) xs)"
  then have "\<forall>oid\<in>set xs. text_of ns oid \<in> set ids" by auto
  with a show "isValidSelection ns (JArr xs) images targetCount = Inr True"
    by (simp add: isValidSelection_True_iff [where ids = ids] list_all_iff)
next
  assume "image_ids ns images = Inl e \<and> length xs = targetCount"
  then show "isValidSelection ns (JArr xs) images targetCount = Inl e"
    by (simp add: isValidSelection_def)
qed

theorem isValidSelection_spec_witness:
  "image_ids integer_text three_images = Inr [''a'', ''b'', ''7'']
   \<and> isValidSelection integer_text JUndefined three_images 3 = Inr False
   \<and> isValidSelection integer_text (JStr ''a'') three_images 3 = Inr False
   \<and> isValidSelection integer_text (JArr []) three_images 3 = Inr False
   \<and> isValidSelection integer_text (JArr [JStr ''a'', JStr ''b'']) three_images 3 = Inr False
   \<and> isValidSelection integer_text (JArr [JStr ''a'', JStr ''z'', JStr ''b'']) three_images 3
        = Inr False
   \<and> isValidSelection integer_text (JArr [JStr ''a'', JObj [(''toString'', JNum 1)], JStr ''z''])
        three_images 3 = Inl primitive_error
   \<and> isValidSelection integer_text (JArr [JStr ''z'', JObj [(''toString'', JNum 1)], JStr ''a''])
        three_images 3 = Inr False
   \<and> isValidSelection integer_text (JArr [JNum 7, JStr ''b'', JStr ''a'']) three_images
        (length three_images) = Inr True
   \<and> isValidSelection integer_text (JArr [JStr ''a'', JStr ''a'', JStr ''b'']) three_images 3
        = Inr True"
  using isValidSelection_spec [of integer_text three_images "[''a'', ''b'', ''7'']" JUndefined 3
          "[JStr ''a'', JStr ''b'']" "[JStr ''a'']" "JStr ''z''" "[JStr ''b'']"
          "JObj [(''toString'', JNum 1)]" primitive_error]
        isValidSelection_spec [of integer_text three_images "[''a'', ''b'', ''7'']" "JStr ''a''" 3
          "[JNum 7, JStr ''b'', JStr ''a'']" "[]" "JStr ''z''"
          "[JObj [(''toString'', JNum 1)], JStr ''a'']"
          "JObj [(''toString'', JNum 1)]" primitive_error]
        isValidSelection_spec [of integer_text three_images "[''a'', ''b'', ''7'']" "JStr ''a''" 3
          "[JStr ''a'', JStr ''a'', JStr ''b'']" "[JStr ''a'']" "JStr ''z''" "[JStr ''z'']"
          "JObj [(''toString'', JNum 1)]" primitive_error]
  by (simp add: image_ids_three integer_text_def digit_char_def length_three_images
      has_text_def text_of_def)

lemma distinct_map_JStr: "distinct (map JStr xs) = distinct xs"
  by (simp add: distinct_map inj_on_def)

text \<open>
  C4, as stated, fails: the Fallback Orderer does not make the ids unique. For two items
  that carry the same id it returns that id twice.
\<close>

theorem deterministicFallback_repeats_counterexample:
  "length twin_images = 2
   \<and> deterministicFallback integer_text twin_images 2 = Inr [''a'', ''a'']
   \<and> \<not> distinct [''a'', ''a'']"
  by (simp add: twin_images_def deterministicFallback_def image_ids_def string_or_index_def
      coalesce_def nullish_def)

text \<open>
  C4, amended. With the target count equal to the number of items, and for items whose
  id is a string, as the handler builds them, the Fallback Orderer returns without fail
  one id per item, the id of the item at the same position: the items' ids in the original
  order. It does nothing to make them unique: the returned ids are pairwise distinct
  exactly when the ids of the items are. For arbitrary items every id it returns is
  \<^verbatim>\<open>String(id ?? filename ?? index)\<close> of the item at its position, and it returns exactly
  when that conversion throws for no item. It reads nothing but its arguments.
\<close>

theorem deterministicFallback_spec:
  "(list_all has_string_id images \<longrightarrow>
      (\<exists>ids. deterministicFallback ns images (length images) = Inr ids
         \<and> length ids = length images
         \<and> map JStr ids = map image_id images
         \<and> (distinct ids \<longleftrightarrow> distinct (map image_id images))))
   \<and> (deterministicFallback ns images (length images) = Inr ids \<longrightarrow>
        length ids = length images
        \<and> (\<forall>i<length images.
              string_or_index ns (coalesce (image_id (images ! i)) (image_filename (images ! i))) i
                = Inr (ids ! i)))
   \<and> ((\<exists>ids. deterministicFallback ns images (length images) = Inr ids) \<longleftrightarrow>
        list_all (\<lambda>img. has_text ns (coalesce (image_id img) (image_filename img))) images)"
proof (intro conjI impI)
  assume a: "list_all has_string_id images"
  have m: "map JStr (map id_text images) = map image_id images"
    using a by (simp add: list_all_iff has_string_id_iff)
  have d: "distinct (map id_text images) \<longleftrightarrow> distinct (map image_id images)"
    unfolding m [symmetric] by (simp only: distinct_map_JStr)
  show "\<exists>ids. deterministicFallback ns images (length images) = Inr ids
         \<and> length ids = length images
         \<and> map JStr ids = map image_id images
         \<and> (distinct ids \<longleftrightarrow> distinct (map image_id images))"
    using m d by (intro exI [of _ "map id_text images"])
      (simp add: deterministicFallback_def image_ids_strings [OF a])
next
  assume "deterministicFallback ns images (length images) = Inr ids"
  then show "length ids = length images"
    by (simp add: deterministicFallback_def image_ids_Inr)
next
  assume "deterministicFallback ns images (length images) = Inr ids"
  then show "\<forall>i<length images.
      string_or_index ns (coalesce (image_id (images ! i)) (image_filename (images ! i))) i
        = Inr (ids ! i)"
    by (simp add: deterministicFallback_def image_ids_Inr)
next
  let ?f = "\<lambda>(idx, img). string_or_index ns (coalesce (image_id img) (image_filename img)) idx"
  let ?k = "\<lambda>img. coalesce (image_id img) (image_filename img)"
  have t: "(\<exists>s. string_or_index ns v idx = Inr s) \<longleftrightarrow> has_text ns v" for v idx
    by (cases v) (auto simp: string_or_index_def nullish_def has_text_def split: sum.splits)
  show "(\<exists>ids. deterministicFallback ns images (length images) = Inr ids) \<longleftrightarrow>
        list_all (\<lambda>img. has_text ns (?k img)) images"
  proof
    assume "\<exists>ids. deterministicFallback ns images (length images) = Inr ids"
    then obtain ids where "image_ids ns images = Inr ids"
      by (auto simp: deterministicFallback_def)
    then have "\<forall>i<length images. \<exists>s. string_or_index ns (?k (images ! i)) i = Inr s"
      by (auto simp: image_ids_Inr)
    then show "list_all (\<lambda>img. has_text ns (?k img)) images"
      by (simp add: t list_all_length)
  next
    assume a: "list_all (\<lambda>img. has_text ns (?k img)) images"
    define g :: "nat \<times> image \<Rightarrow> string" where "g = (\<lambda>(idx, img). case string_or_index ns (?k img) idx of Inr s \<Rightarrow> s
                                         | Inl e \<Rightarrow> [])"
    have "map_result ?f (enumerate 0 images) = Inr (map g (enumerate 0 images))"
    proof (rule map_result_total)
      fix x assume x: "x \<in> set (enumerate 0 images)"
      obtain idx img where xi: "x = (idx, img)" by (cases x)
      with x have "img \<in> set images" by (auto simp: in_set_enumerate_eq)
      with a have "has_text ns (?k img)" by (simp add: list_all_iff)
      then obtain s where "string_or_index ns (?k img) idx = Inr s" using t by blast
      then show "?f x = Inr (g x)" by (simp add: xi g_def)
    qed
    then show "\<exists>ids. deterministicFallback ns images (length images) = Inr ids"
      by (simp add: deterministicFallback_def image_ids_def)
  qed
qed

theorem deterministicFallback_spec_witness:
  "list_all has_string_id three_images
   \<and> list_all (\<lambda>img. has_text integer_text (coalesce (image_id img) (image_filename img)))
        three_images
   \<and> deterministicFallback integer_text three_images (length three_images)
        = Inr [''a'', ''b'', ''7'']
   \<and> map JStr [''a'', ''b'', ''7''] = map image_id three_images
   \<and> distinct (map image_id three_images)"
  using deterministicFallback_spec [of three_images integer_text "[''a'', ''b'', ''7'']"]
    three_images_strings
  by (simp add: deterministicFallback_def length_three_images image_ids_three)

section \<open>Shots\<close>

lemma position_role_quantile: "position_role idx n = quantile_role idx n"
proof -
  have a: "real idx < 0.2 * real n \<longleftrightarrow> 5 * idx < n"
  proof -
    have "real idx < 0.2 * real n \<longleftrightarrow> real (5 * idx) < real n" by (simp add: field_simps)
    then show ?thesis by (simp only: of_nat_less_iff)
  qed
  have b: "real idx < 0.6 * real n \<longleftrightarrow> 5 * idx < 3 * n"
  proof -
    have "real idx < 0.6 * real n \<longleftrightarrow> real (5 * idx) < real (3 * n)" by (simp add: field_simps)
    then show ?thesis by (simp only: of_nat_less_iff)
  qed
  have c: "real idx < 0.9 * real n \<longleftrightarrow> 10 * idx < 9 * n"
  proof -
    have "real idx < 0.9 * real n \<longleftrightarrow> real (10 * idx) < real (9 * n)" by (simp add: field_simps)
    then show ?thesis by (simp only: of_nat_less_iff)
  qed
  show ?thesis by (simp only: position_role_def quantile_role_def a b c)
qed

lemma get_prop_defined: "\<not> nullish v \<Longrightarrow> get_prop v k = Inr (prop_of v k)"
  by (cases v) (auto simp: get_prop_def prop_of_def nullish_def)

lemma get_prop_nullish: "nullish v \<Longrightarrow> get_prop v k = Inl (type_error v k)"
  by (auto simp: get_prop_def nullish_def)

lemma opt_prop_defined:
  "\<not> nullish v \<Longrightarrow> opt_prop v k = Inr (prop_of v k)"
  by (simp add: opt_prop_def get_prop_defined)

lemma opt_prop_undefined: "opt_prop JUndefined k = Inr JUndefined"
  by (simp add: opt_prop_def nullish_def)

lemma find_Some_set: "find P xs = Some x \<Longrightarrow> x \<in> set xs"
  by (auto simp: find_Some_iff)

text \<open>
  The scan for the beat of an id, for beats that are not \<^verbatim>\<open>null\<close> and whose ids have
  a text, and an id that has a text unless there is no beat to compare it with.
\<close>

lemma find_beat_defined:
  assumes "\<forall>b\<in>set beats. \<not> nullish b \<and> has_text ns (prop_of b ''id'')"
    and "beats = [] \<or> has_text ns oid"
  shows "find_beat ns beats oid =
     Inr (case find (\<lambda>b. text_of ns (prop_of b ''id'') = text_of ns oid) beats of
            Some b \<Rightarrow> b | None \<Rightarrow> JUndefined)"
  using assms
proof (induction beats)
  case Nil
  then show ?case by simp
next
  case (Cons b bs)
  then have o: "js_String ns oid = Inr (text_of ns oid)"
    and b: "js_String ns (prop_of b ''id'') = Inr (text_of ns (prop_of b ''id''))"
    and n: "\<not> nullish b"
    by (simp_all add: has_text_iff)
  from Cons have "find_beat ns bs oid =
     Inr (case find (\<lambda>b. text_of ns (prop_of b ''id'') = text_of ns oid) bs of
            Some b \<Rightarrow> b | None \<Rightarrow> JUndefined)"
    by simp
  then show ?case by (simp add: get_prop_defined [OF n] o b)
qed

text \<open>The shot built at one position.\<close>

lemma shot_at:
  assumes "\<forall>b\<in>set beats. \<not> nullish b \<and> has_text ns (prop_of b ''id'')"
    and "beats = [] \<or> has_text ns oid"
  shows "bind_result (find_beat ns beats oid) (\<lambda>beat.
          bind_result (opt_prop beat ''role'') (\<lambda>beat_role.
          bind_result (opt_prop beat ''reason'') (\<lambda>beat_reason.
            Inr \<lparr>shot_id = oid,
                 role = js_or beat_role (JStr (position_role idx n)),
                 reason = js_or beat_reason (JStr [])\<rparr>)))
         = Inr (case find (\<lambda>b. text_of ns (prop_of b ''id'') = text_of ns oid) beats of
                  Some b \<Rightarrow> \<lparr>shot_id = oid,
                     role = js_or (prop_of b ''role'') (JStr (position_role idx n)),
                     reason = js_or (prop_of b ''reason'') (JStr [])\<rparr>
                | None \<Rightarrow> \<lparr>shot_id = oid, role = JStr (position_role idx n), reason = JStr []\<rparr>)"
proof (cases "find (\<lambda>b. text_of ns (prop_of b ''id'') = text_of ns oid) beats")
  case None
  then show ?thesis
    by (simp add: find_beat_defined [OF assms] opt_prop_undefined js_or_def)
next
  case (Some b)
  then have "\<not> nullish b" using assms(1) find_Some_set by fastforce
  with Some show ?thesis
    by (simp add: find_beat_defined [OF assms] opt_prop_defined)
qed

lemma buildShots_shots:
  assumes "\<forall>b\<in>set beats. \<not> nullish b \<and> has_text ns (prop_of b ''id'')"
    and "beats = [] \<or> list_all (has_text ns) ids"
  shows "buildShots ns ids beats =
      Inr (map (\<lambda>(idx, oid).
             case find (\<lambda>b. text_of ns (prop_of b ''id'') = text_of ns oid) beats of
               Some b \<Rightarrow> \<lparr>shot_id = oid,
                  role = js_or (prop_of b ''role'') (JStr (position_role idx (length ids))),
                  reason = js_or (prop_of b ''reason'') (JStr [])\<rparr>
             | None \<Rightarrow> \<lparr>shot_id = oid, role = JStr (position_role idx (length ids)),
                  reason = JStr []\<rparr>) (enumerate 0 ids))"
  unfolding buildShots_def
proof (rule map_result_total)
  fix x assume x: "x \<in> set (enumerate 0 ids)"
  obtain idx oid where xi: "x = (idx, oid)" by (cases x)
  with x have "oid \<in> set ids" by (auto simp: in_set_enumerate_eq)
  with assms(2) have "beats = [] \<or> has_text ns oid" by (auto simp: list_all_iff)
  from shot_at [OF assms(1) this]
  show "(case x of (idx, oid) \<Rightarrow>
          bind_result (find_beat ns beats oid) (\<lambda>beat.
          bind_result (opt_prop beat ''role'') (\<lambda>beat_role.
          bind_result (opt_prop beat ''reason'') (\<lambda>beat_reason.
            Inr \<lparr>shot_id = oid,
                 role = js_or beat_role (JStr (position_role idx (length ids))),
                 reason = js_or beat_reason (JStr [])\<rparr>))))
      = Inr (case x of (idx, oid) \<Rightarrow>
             case find (\<lambda>b. text_of ns (prop_of b ''id'') = text_of ns oid) beats of
               Some b \<Rightarrow> \<lparr>shot_id = oid,
                  role = js_or (prop_of b ''role'') (JStr (position_role idx (length ids))),
                  reason = js_or (prop_of b ''reason'') (JStr [])\<rparr>
             | None \<Rightarrow> \<lparr>shot_id = oid, role = JStr (position_role idx (length ids)),
                  reason = JStr []\<rparr>)"
    by (simp add: xi)
qed

lemma buildShots_first_beat:
  assumes "find_beat ns (b # beats) oid = Inl e"
  shows "buildShots ns (oid # ids) (b # beats) = Inl e"
  using assms by (simp add: buildShots_def enumerate_simps)

text \<open>
  C7, as stated, fails: \<^verbatim>\<open>buildShots\<close> does not produce shots for every beats list. On a
  beats list that holds \<^verbatim>\<open>null\<close> it throws when it reads the id of that entry.
\<close>

theorem buildShots_null_beat_counterexample:
  "buildShots integer_text [JStr ''a''] [JNull] = Inl (type_error JNull ''id'')
   \<and> error_name (type_error JNull ''id'') = ''TypeError''
   \<and> buildShots integer_text [JStr ''a''] [JNull] \<noteq> Inr [\<lparr>shot_id = JStr ''a'', role = JStr ''opening'', reason = JStr []\<rparr>]"
  by (simp add: buildShots_def get_prop_def type_error_def)

text \<open>
  C7, amended. For beats none of which is \<^verbatim>\<open>null\<close> and whose ids have a text, and for
  ordered ids that have a text (or any ordered ids when there is no beat), \<^verbatim>\<open>buildShots\<close>
  returns one shot per ordered id, in order, each carrying its id. The role is the role
  of the first beat whose id has the same text, when that role is truthy; when it is not,
  or when no beat matches, the role follows from the position: indices below 0.2 n open,
  indices from 0.2 n below 0.6 n build, indices from 0.6 n below 0.9 n turn, the remaining
  ones resolve. The reason is that beat's reason when truthy, and the empty string
  otherwise. For an ordering and a beats list that are not empty, \<^verbatim>\<open>buildShots\<close> throws
  when the first beat is \<^verbatim>\<open>null\<close> or \<^verbatim>\<open>undefined\<close>, when the id of the first beat has no
  text, and when the first ordered id has no text.
\<close>

theorem buildShots_spec:
  "(list_all (\<lambda>b. \<not> nullish b \<and> has_text ns (prop_of b ''id'')) beats
      \<and> (beats = [] \<or> list_all (has_text ns) orderedIds) \<longrightarrow>
      (\<exists>shots. buildShots ns orderedIds beats = Inr shots
         \<and> length shots = length orderedIds
         \<and> (\<forall>i<length orderedIds.
              shot_id (shots ! i) = orderedIds ! i
              \<and> (case find (\<lambda>b. text_of ns (prop_of b ''id'') = text_of ns (orderedIds ! i)) beats of
                    Some b \<Rightarrow>
                      role (shots ! i) =
                        (if truthy (prop_of b ''role'') then prop_of b ''role''
                         else JStr (quantile_role i (length orderedIds)))
                      \<and> reason (shots ! i) =
                        (if truthy (prop_of b ''reason'') then prop_of b ''reason'' else JStr [])
                  | None \<Rightarrow>
                      role (shots ! i) = JStr (quantile_role i (length orderedIds))
                      \<and> reason (shots ! i) = JStr []))))
   \<and> (nullish b \<longrightarrow> buildShots ns (oid # ids) (b # bs) = Inl (type_error b ''id''))
   \<and> (\<not> nullish b \<and> js_String ns (prop_of b ''id'') = Inl e
        \<longrightarrow> buildShots ns (oid # ids) (b # bs) = Inl e)
   \<and> (\<not> nullish b \<and> has_text ns (prop_of b ''id'') \<and> js_String ns oid = Inl e
        \<longrightarrow> buildShots ns (oid # ids) (b # bs) = Inl e)"
proof (intro conjI impI)
  assume a: "list_all (\<lambda>b. \<not> nullish b \<and> has_text ns (prop_of b ''id'')) beats
      \<and> (beats = [] \<or> list_all (has_text ns) orderedIds)"
  define mk where "mk = (\<lambda>(idx, oid).
      case find (\<lambda>b. text_of ns (prop_of b ''id'') = text_of ns oid) beats of
        Some b \<Rightarrow> \<lparr>shot_id = oid,
           role = js_or (prop_of b ''role'') (JStr (position_role idx (length orderedIds))),
           reason = js_or (prop_of b ''reason'') (JStr [])\<rparr>
      | None \<Rightarrow> \<lparr>shot_id = oid, role = JStr (position_role idx (length orderedIds)),
           reason = JStr []\<rparr>)"
  define shots where "shots = map mk (enumerate 0 orderedIds)"
  have "buildShots ns orderedIds beats = Inr shots"
    unfolding shots_def mk_def using a
    by (intro buildShots_shots) (simp_all add: list_all_iff)
  moreover have "length shots = length orderedIds" by (simp add: shots_def)
  moreover have "shots ! i = mk (i, orderedIds ! i)" if "i < length orderedIds" for i
    using that by (simp add: shots_def nth_enumerate_eq)
  ultimately show "\<exists>shots. buildShots ns orderedIds beats = Inr shots
         \<and> length shots = length orderedIds
         \<and> (\<forall>i<length orderedIds.
              shot_id (shots ! i) = orderedIds ! i
              \<and> (case find (\<lambda>b. text_of ns (prop_of b ''id'') = text_of ns (orderedIds ! i)) beats of
                    Some b \<Rightarrow>
                      role (shots ! i) =
                        (if truthy (prop_of b ''role'') then prop_of b ''role''
                         else JStr (quantile_role i (length orderedIds)))
                      \<and> reason (shots ! i) =
                        (if truthy (prop_of b ''reason'') then prop_of b ''reason'' else JStr [])
                  | None \<Rightarrow>
                      role (shots ! i) = JStr (quantile_role i (length orderedIds))
                      \<and> reason (shots ! i) = JStr []))"
    by (intro exI [of _ shots])
       (auto simp: mk_def js_or_def position_role_quantile split: option.splits)
next
  assume "nullish b"
  then show "buildShots ns (oid # ids) (b # bs) = Inl (type_error b ''id'')"
    by (intro buildShots_first_beat) (simp add: get_prop_nullish)
next
  assume "\<not> nullish b \<and> js_String ns (prop_of b ''id'') = Inl e"
  then show "buildShots ns (oid # ids) (b # bs) = Inl e"
    by (intro buildShots_first_beat) (simp add: get_prop_defined)
next
  assume "\<not> nullish b \<and> has_text ns (prop_of b ''id'') \<and> js_String ns oid = Inl e"
  then show "buildShots ns (oid # ids) (b # bs) = Inl e"
    by (intro buildShots_first_beat) (simp add: get_prop_defined has_text_iff)
qed

theorem buildShots_spec_witness:
  "list_all (\<lambda>b. \<not> nullish b \<and> has_text integer_text (prop_of b ''id'')) some_beats
   \<and> list_all (has_text integer_text) ten_ids
   \<and> buildShots integer_text ten_ids some_beats = Inr
     [\<lparr>shot_id = JNum 0, role = JStr ''opening'', reason = JStr []\<rparr>,
      \<lparr>shot_id = JNum 1, role = JStr ''opening'', reason = JStr []\<rparr>,
      \<lparr>shot_id = JNum 2, role = JStr ''build'', reason = JStr []\<rparr>,
      \<lparr>shot_id = JNum 3, role = JStr ''climax'', reason = JStr ''peak''\<rparr>,
      \<lparr>shot_id = JNum 4, role = JStr ''build'', reason = JStr []\<rparr>,
      \<lparr>shot_id = JNum 5, role = JStr ''build'', reason = JStr []\<rparr>,
      \<lparr>shot_id = JNum 6, role = JStr ''turn'', reason = JStr []\<rparr>,
      \<lparr>shot_id = JNum 7, role = JStr ''turn'', reason = JStr []\<rparr>,
      \<lparr>shot_id = JNum 8, role = JStr ''turn'', reason = JStr []\<rparr>,
      \<lparr>shot_id = JNum 9, role = JStr ''resolution'', reason = JStr []\<rparr>]
   \<and> buildShots integer_text [JStr ''a'', JStr ''b''] [JNull, JObj [(''id'', JStr ''a'')]]
        = Inl (type_error JNull ''id'')
   \<and> buildShots integer_text [JStr ''a'', JStr ''b''] [JObj [(''id'', JObj [(''toString'', JNum 1)])]]
        = Inl primitive_error
   \<and> buildShots integer_text [JObj [(''toString'', JNum 1)], JStr ''b''] [JObj [(''id'', JStr ''a'')]]
        = Inl primitive_error"
proof -
  have nn: "list_all (\<lambda>b. \<not> nullish b \<and> has_text integer_text (prop_of b ''id'')) some_beats"
    by (simp add: some_beats_def nullish_def has_text_def prop_of_def get_prop_def)
  have tt: "list_all (has_text integer_text) ten_ids"
    by (simp add: ten_ids_def has_text_def)
  from buildShots_spec [of integer_text some_beats ten_ids] nn tt
  obtain shots where "buildShots integer_text ten_ids some_beats = Inr shots" by blast
  moreover have "buildShots integer_text ten_ids some_beats = Inr
     [\<lparr>shot_id = JNum 0, role = JStr ''opening'', reason = JStr []\<rparr>,
      \<lparr>shot_id = JNum 1, role = JStr ''opening'', reason = JStr []\<rparr>,
      \<lparr>shot_id = JNum 2, role = JStr ''build'', reason = JStr []\<rparr>,
      \<lparr>shot_id = JNum 3, role = JStr ''climax'', reason = JStr ''peak''\<rparr>,
      \<lparr>shot_id = JNum 4, role = JStr ''build'', reason = JStr []\<rparr>,
      \<lparr>shot_id = JNum 5, role = JStr ''build'', reason = JStr []\<rparr>,
      \<lparr>shot_id = JNum 6, role = JStr ''turn'', reason = JStr []\<rparr>,
      \<lparr>shot_id = JNum 7, role = JStr ''turn'', reason = JStr []\<rparr>,
      \<lparr>shot_id = JNum 8, role = JStr ''turn'', reason = JStr []\<rparr>,
      \<lparr>shot_id = JNum 9, role = JStr ''resolution'', reason = JStr []\<rparr>]"
    by (simp add: buildShots_def ten_ids_def some_beats_def get_prop_def
        opt_prop_def nullish_def js_or_def position_role_def integer_text_def digit_char_def)
  moreover have
    "buildShots integer_text [JStr ''a'', JStr ''b''] [JNull, JObj [(''id'', JStr ''a'')]]
        = Inl (type_error JNull ''id'')"
    "buildShots integer_text [JStr ''a'', JStr ''b''] [JObj [(''id'', JObj [(''toString'', JNum 1)])]]
        = Inl primitive_error"
    "buildShots integer_text [JObj [(''toString'', JNum 1)], JStr ''b''] [JObj [(''id'', JStr ''a'')]]
        = Inl primitive_error"
    using buildShots_spec [of integer_text "[]" "[]" JNull "JStr ''a''" "[JStr ''b'']"
            "[JObj [(''id'', JStr ''a'')]]" primitive_error]
          buildShots_spec [of integer_text "[]" "[]" "JObj [(''id'', JObj [(''toString'', JNum 1)])]"
            "JStr ''a''" "[JStr ''b'']" "[]" primitive_error]
          buildShots_spec [of integer_text "[]" "[]" "JObj [(''id'', JStr ''a'')]"
            "JObj [(''toString'', JNum 1)]" "[JStr ''b'']" "[]" primitive_error]
    by (simp_all add: nullish_def prop_of_def get_prop_def has_text_def)
  ultimately show ?thesis using nn tt by simp
qed

section \<open>The sequence handler\<close>

lemma get_prop_InrD: "get_prop v k = Inr x \<Longrightarrow> \<not> nullish v \<and> x = prop_of v k"
  by (cases v) (auto simp: get_prop_def prop_of_def nullish_def)

lemma string_or_index_JStr [simp]: "string_or_index ns (JStr s) idx = Inr s"
  by (simp add: string_or_index_def nullish_def)

text \<open>What normalization has built when it returns.\<close>

lemma normalize_nth:
  assumes "normalize ns sn rs = Inr images" and "i < length rs"
  shows "\<not> nullish (rs ! i)"
    and "string_or_index ns (coalesce (prop_of (rs ! i) ''id'') (prop_of (rs ! i) ''filename'')) i
           = Inr (id_text (images ! i))"
    and "image_id (images ! i) = JStr (id_text (images ! i))"
    and "image_filename (images ! i)
           = js_or (prop_of (rs ! i) ''filename'') (JStr (''image_'' @ string_of_nat i))"
    and "analysis_bag ns sn (rs ! i) = Inr (image_analysis (images ! i))"
proof -
  from assms have
    "bind_result (get_prop (rs ! i) ''id'') (\<lambda>a_id.
     bind_result (get_prop (rs ! i) ''filename'') (\<lambda>a_filename.
     bind_result (string_or_index ns (coalesce a_id a_filename) i) (\<lambda>id_string.
     bind_result (analysis_bag ns sn (rs ! i)) (\<lambda>analysis.
       Inr \<lparr>image_id = JStr id_string,
            image_filename = js_or a_filename (JStr (''image_'' @ string_of_nat i)),
            image_analysis = analysis\<rparr>)))) = Inr (images ! i)"
    by (simp add: normalize_def map_result_Inr nth_enumerate_eq)
  then obtain a_id a_filename id_string analysis where
    g: "get_prop (rs ! i) ''id'' = Inr a_id" "get_prop (rs ! i) ''filename'' = Inr a_filename"
    and s: "string_or_index ns (coalesce a_id a_filename) i = Inr id_string"
    and b: "analysis_bag ns sn (rs ! i) = Inr analysis"
    and img: "images ! i = \<lparr>image_id = JStr id_string,
            image_filename = js_or a_filename (JStr (''image_'' @ string_of_nat i)),
            image_analysis = analysis\<rparr>"
    by (elim bind_result_InrE) auto
  from g have p: "\<not> nullish (rs ! i)" "a_id = prop_of (rs ! i) ''id''"
    "a_filename = prop_of (rs ! i) ''filename''"
    by (auto dest: get_prop_InrD)
  show "\<not> nullish (rs ! i)" by (rule p(1))
  show "string_or_index ns (coalesce (prop_of (rs ! i) ''id'') (prop_of (rs ! i) ''filename'')) i
           = Inr (id_text (images ! i))"
    using s p by (simp add: img id_text_def)
  show "image_id (images ! i) = JStr (id_text (images ! i))"
    by (simp add: img id_text_def)
  show "image_filename (images ! i)
           = js_or (prop_of (rs ! i) ''filename'') (JStr (''image_'' @ string_of_nat i))"
    using p by (simp add: img)
  show "analysis_bag ns sn (rs ! i) = Inr (image_analysis (images ! i))"
    using b by (simp add: img)
qed

lemma normalize_length: "normalize ns sn rs = Inr images \<Longrightarrow> length images = length rs"
  by (simp add: normalize_def map_result_Inr)

lemma normalize_strings:
  assumes "normalize ns sn rs = Inr images"
  shows "list_all has_string_id images"
  unfolding list_all_length
proof (intro allI impI)
  fix i assume "i < length images"
  then have "i < length rs" using normalize_length [OF assms] by simp
  from normalize_nth(3) [OF assms this] show "has_string_id (images ! i)"
    by (simp add: has_string_id_iff)
qed

lemma reaches_model_normalize:
  "reaches_model ns sn ev rateLimitMap req rs \<Longrightarrow>
   normalize ns sn rs = Inr (request_images ns sn rs)"
  by (auto simp: reaches_model_def request_images_def split: sum.splits)

lemma length_request_images:
  "reaches_model ns sn ev rateLimitMap req rs \<Longrightarrow> length (request_images ns sn rs) = length rs"
  by (rule normalize_length) (rule reaches_model_normalize)

lemma request_images_strings:
  "reaches_model ns sn ev rateLimitMap req rs \<Longrightarrow> list_all has_string_id (request_images ns sn rs)"
  by (rule normalize_strings) (rule reaches_model_normalize)

lemma buildShots_length: "buildShots ns ids beats = Inr ss \<Longrightarrow> length ss = length ids"
  by (simp add: buildShots_def map_result_Inr)

lemma buildShots_no_beats:
  "buildShots ns ids [] =
     Inr (map (\<lambda>(idx, oid). \<lparr>shot_id = oid, role = JStr (position_role idx (length ids)),
                               reason = JStr []\<rparr>) (enumerate 0 ids))"
  unfolding buildShots_def
  by (rule map_result_total) (auto simp: opt_prop_def nullish_def js_or_def)

lemma deterministicFallback_strings:
  "list_all has_string_id images \<Longrightarrow>
   deterministicFallback ns images (length images) = Inr (map id_text images)"
  by (simp add: deterministicFallback_def image_ids_strings)

text \<open>Past the gates the handler's reply is that of the inner try and catch.\<close>

lemma handler_past_gates:
  assumes "reaches_model ns sn ev rateLimitMap req rs"
  shows "fst (handler ns sn parse ev upstream rateLimitMap req) =
     (case try_catch
            (bind_result upstream
               (model_plan ns parse (request_images ns sn rs) (length rs)
                  (fst (checkRateLimit (now ev) (clientIp req) rateLimitMap))))
            (fallback_response ns (request_images ns sn rs) (length rs)) of
        Inr res \<Rightarrow> res
      | Inl e \<Rightarrow> \<lparr>status = 500, headers = [content_type],
                  body = FailureReply (if error_message e = [] then ''Unknown error''
                                       else error_message e)\<rparr>)"
proof -
  from assms obtain b k where m: "http_method req = ''POST''"
    and al: "allowed (fst (checkRateLimit (now ev) (clientIp req) rateLimitMap))"
    and j: "json req = Inr b" and ar: "get_prop b ''analysisResults'' = Inr (JArr rs)"
    and ne: "rs \<noteq> []" and le: "length rs \<le> 200"
    and key: "OPENAI_API_KEY ev = Some k" "k \<noteq> []"
    by (auto simp: reaches_model_def split: sum.splits option.splits)
  note nz = reaches_model_normalize [OF assms]
  obtain rl rm where cr: "checkRateLimit (now ev) (clientIp req) rateLimitMap = (rl, rm)"
    by (cases "checkRateLimit (now ev) (clientIp req) rateLimitMap")
  have hb: "handle_body ns sn parse ev upstream rl req
      = try_catch (bind_result upstream (model_plan ns parse (request_images ns sn rs) (length rs) rl))
          (fallback_response ns (request_images ns sn rs) (length rs))"
    using j ar ne le key
    by (simp add: handle_body_def MAX_IMAGES_def nz
        length_request_images [OF assms] Let_def cong: sum.case_cong)
  from al cr have al': "allowed rl" by simp
  show ?thesis
    by (cases "try_catch (bind_result upstream (model_plan ns parse (request_images ns sn rs) (length rs) rl))
          (fallback_response ns (request_images ns sn rs) (length rs))")
       (simp_all add: handler_def m cr al' hb)
qed

lemma fallback_response_eq:
  assumes "list_all has_string_id images"
  shows "fallback_response ns images (length images) e =
     Inr \<lparr>status = 200, headers = [content_type],
          body = PlanReply
            \<lparr>theme = JStr [], emotion_arc = [],
             ordered_ids = map id_text images,
             shots = map (\<lambda>(idx, oid). \<lparr>shot_id = JStr oid,
                        role = JStr (position_role idx (length images)), reason = JStr []\<rparr>)
                      (enumerate 0 (map id_text images)),
             selected = [0..<length images],
             order = [0..<length images],
             durations = replicate (length images) (38 / 10),
             transitions = replicate (length images - 1) ''crossfade'',
             usedPlanner = ''fallback'',
             error = (if error_name e = ''AbortError'' then None else Some (error_message e))\<rparr>\<rparr>"
proof -
  have "map (\<lambda>(idx, oid). \<lparr>shot_id = oid, role = JStr (position_role idx (length images)),
                reason = JStr []\<rparr>) (enumerate 0 (map JStr (map id_text images)))
      = map (\<lambda>(idx, oid). \<lparr>shot_id = JStr oid, role = JStr (position_role idx (length images)),
                reason = JStr []\<rparr>) (enumerate 0 (map id_text images))"
    by (simp add: enumerate_eq_zip zip_map2 case_prod_unfold)
  moreover have "nat (max 0 (int (length images) - 1)) = length images - 1" by simp
  ultimately show ?thesis
    by (simp add: fallback_response_def deterministicFallback_strings [OF assms]
        buildShots_no_beats Let_def)
qed

text \<open>
  C6. When the request has reached the model call and the call throws, be it the abort of
  the 30 second timer (an error named AbortError) or any other failure, the handler
  answers 200 with \<^verbatim>\<open>ok: true\<close> and a plan made of the Fallback Orderer's ordering, an
  empty theme and emotion arc, one shot per id with the role of its position and an empty
  reason, and the tag \<^verbatim>\<open>fallback\<close>. The plan carries the failure's message as
  \<^verbatim>\<open>error\<close> on the error route and no such field on the timeout route.
\<close>

theorem upstream_failure_degrades:
  assumes "reaches_model ns sn ev rateLimitMap req rs"
  shows "\<exists>ids. deterministicFallback ns (request_images ns sn rs) (length rs) = Inr ids
     \<and> fst (handler ns sn parse ev (Inl e) rateLimitMap req) =
       \<lparr>status = 200, headers = [content_type],
        body = PlanReply
          \<lparr>theme = JStr [], emotion_arc = [],
           ordered_ids = ids,
           shots = map (\<lambda>(idx, oid). \<lparr>shot_id = JStr oid,
                      role = JStr (quantile_role idx (length rs)), reason = JStr []\<rparr>)
                    (enumerate 0 ids),
           selected = [0..<length rs],
           order = [0..<length rs],
           durations = replicate (length rs) (38 / 10),
           transitions = replicate (length rs - 1) ''crossfade'',
           usedPlanner = ''fallback'',
           error = (if error_name e = ''AbortError'' then None else Some (error_message e))\<rparr>\<rparr>"
proof -
  note n = length_request_images [OF assms]
  note s = request_images_strings [OF assms]
  have "deterministicFallback ns (request_images ns sn rs) (length rs)
      = Inr (map id_text (request_images ns sn rs))"
    using deterministicFallback_strings [OF s, of ns] by (simp add: n)
  then show ?thesis
    using fallback_response_eq [OF s, of ns e]
    by (simp add: handler_past_gates [OF assms] try_catch_def n position_role_quantile)
qed

lemma reaches_three:
  "reaches_model ns sn deployment Map.empty (post_request three_results) three_results"
  by (simp add: reaches_model_def deployment_def post_request_def three_results_def
      checkRateLimit_def getRateLimitKey_def clientIp_def RATE_LIMIT_MAX_REQUESTS_def
      RATE_LIMIT_WINDOW_MS_def get_prop_def nullish_def Let_def normalize_def analysis_bag_def
      coalesce_def string_or_index_def)

lemma request_images_three:
  "request_images ns sn three_results =
     [\<lparr>image_id = JStr ''a'', image_filename = JStr ''image_0'', image_analysis = default_analysis\<rparr>,
      \<lparr>image_id = JStr ''b'', image_filename = JStr ''image_1'', image_analysis = default_analysis\<rparr>,
      \<lparr>image_id = JStr ''c'', image_filename = JStr ''image_2'', image_analysis = default_analysis\<rparr>]"
  by (simp add: request_images_def normalize_def analysis_bag_def three_results_def get_prop_def
      coalesce_def nullish_def string_or_index_def js_or_def digit_char_def default_analysis_def)

lemma fallback_three:
  "deterministicFallback ns (request_images ns sn three_results) 3 = Inr [''a'', ''b'', ''c'']"
  by (simp add: request_images_three deterministicFallback_def image_ids_def coalesce_def
      nullish_def string_or_index_def)

lemma length_three_results: "length three_results = 3"
  by (simp add: three_results_def)

theorem upstream_failure_degrades_witness:
  "reaches_model integer_text example_numbers deployment Map.empty (post_request three_results)
     three_results
   \<and> deterministicFallback integer_text (request_images integer_text example_numbers three_results) 3
       = Inr [''a'', ''b'', ''c'']
   \<and> fst (handler integer_text example_numbers (parse_table model_answers) deployment
            (Inl (Error ''AbortError'' ''Request was aborted.'')) Map.empty
            (post_request three_results)) =
       \<lparr>status = 200, headers = [content_type],
        body = PlanReply
          \<lparr>theme = JStr [], emotion_arc = [],
           ordered_ids = [''a'', ''b'', ''c''],
           shots = [\<lparr>shot_id = JStr ''a'', role = JStr ''opening'', reason = JStr []\<rparr>,
                    \<lparr>shot_id = JStr ''b'', role = JStr ''build'', reason = JStr []\<rparr>,
                    \<lparr>shot_id = JStr ''c'', role = JStr ''turn'', reason = JStr []\<rparr>],
           selected = [0, 1, 2],
           order = [0, 1, 2],
           durations = [38 / 10, 38 / 10, 38 / 10],
           transitions = [''crossfade'', ''crossfade''],
           usedPlanner = ''fallback'',
           error = None\<rparr>\<rparr>
   \<and> map_option error (reply_plan (fst (handler integer_text example_numbers
            (parse_table model_answers) deployment
            (Inl (Error ''Error'' ''Connection error.'')) Map.empty
            (post_request three_results)))) = Some (Some ''Connection error.'')"
proof -
  have u: "[0..<3] = [0, 1, 2]" by (simp add: upt_rec)
  note t = upstream_failure_degrades [OF reaches_three, of integer_text example_numbers
      "parse_table model_answers", unfolded length_three_results fallback_three]
  show ?thesis
    using t [of "Error ''AbortError'' ''Request was aborted.''"]
      t [of "Error ''Error'' ''Connection error.''"] reaches_three fallback_three
    by (simp add: reply_plan_def u quantile_role_def numeral_2_eq_2 numeral_3_eq_3)
qed

text \<open>
  A request on which normalization throws does not reach the model call: the outer
  \<^verbatim>\<open>catch\<close> answers 500 with the message of the error, whatever the call would do.
\<close>

lemma normalization_failure_reply:
  "\<not> reaches_model ns sn deployment Map.empty
       (post_request [JObj [(''id'', JObj [(''toString'', JNum 1)])]])
       [JObj [(''id'', JObj [(''toString'', JNum 1)])]]"
  "fst (handler ns sn parse deployment upstream Map.empty
          (post_request [JObj [(''id'', JObj [(''toString'', JNum 1)])]])) =
     \<lparr>status = 500, headers = [content_type],
      body = FailureReply ''Cannot convert object to primitive value''\<rparr>"
  "fst (handler ns sn parse deployment upstream Map.empty
          (post_request [JObj [(''visual_energy'', JObj [(''toString'', JNum 1)])]])) =
     \<lparr>status = 500, headers = [content_type],
      body = FailureReply ''Cannot convert object to primitive value''\<rparr>"
  by (simp_all add: reaches_model_def handler_def handle_body_def normalize_def analysis_bag_def
      post_request_def deployment_def checkRateLimit_def getRateLimitKey_def clientIp_def
      RATE_LIMIT_MAX_REQUESTS_def RATE_LIMIT_WINDOW_MS_def MAX_IMAGES_def get_prop_def
      coalesce_def nullish_def string_or_index_def primitive_error_def Let_def)

lemma distinct_same_length_subset:
  assumes "distinct xs" and "distinct ys" and "length xs = length ys" and "set xs \<subseteq> set ys"
  shows "mset xs = mset ys"
proof -
  have "card (set xs) = card (set ys)"
    using assms by (simp add: distinct_card)
  then have "set xs = set ys"
    using assms(4) by (simp add: card_subset_eq)
  then show ?thesis
    using assms(1,2) by (simp add: set_eq_iff_mset_eq_distinct)
qed

lemma map_result_strings: "map_result (js_String ns) (map JStr ids) = Inr ids"
  by (induction ids) simp_all

text \<open>The final ids, for images whose ids are strings: one per image, each the id of an image.\<close>

lemma final_ids_shape:
  assumes "list_all has_string_id images"
    and "final_ids ns sel images (length images) = Inr fin"
  shows "\<exists>strs. map_result (js_String ns) fin = Inr strs
     \<and> length fin = length images \<and> set strs \<subseteq> set (map id_text images)"
proof -
  note ids = image_ids_strings [OF assms(1), of ns]
  from assms(2) obtain valid where
    v: "isValidSelection ns sel images (length images) = Inr valid"
    and f: "(if \<not> valid
       then bind_result (deterministicFallback ns images (length images)) (\<lambda>ids. Inr (map JStr ids))
       else Inr (elements sel)) = Inr fin"
    unfolding final_ids_def by (rule bind_result_InrE)
  show ?thesis
  proof (cases valid)
    case True
    with f have fin: "fin = elements sel" by simp
    from v True have a: "length fin = length images"
      and m: "\<forall>oid\<in>set fin. has_text ns oid \<and> text_of ns oid \<in> set (map id_text images)"
      by (simp_all add: isValidSelection_True_iff [OF ids] fin)
    have "map_result (js_String ns) fin = Inr (map (text_of ns) fin)"
      using m by (intro map_result_total) (simp add: has_text_iff [symmetric])
    moreover have "set (map (text_of ns) fin) \<subseteq> set (map id_text images)"
      using m by auto
    ultimately show ?thesis using a by blast
  next
    case False
    with f have "fin = map JStr (map id_text images)"
      by (simp add: deterministicFallback_strings [OF assms(1)])
    then show ?thesis
      by (intro exI [of _ "map id_text images"]) (simp add: map_result_strings del: map_map)
  qed
qed

text \<open>What a reply of the model route looks like.\<close>

lemma assemble_plan_reply:
  assumes "assemble_plan ns images rateLimit th ea fin beats = Inr res"
  shows "\<exists>ss strs sel. buildShots ns fin beats = Inr ss
     \<and> map_result (js_String ns) fin = Inr strs
     \<and> length sel = length fin
     \<and> res = \<lparr>status = 200,
          headers = [content_type, (''X-RateLimit-Remaining'', string_of_nat (remaining rateLimit))],
          body = PlanReply
            \<lparr>theme = th, emotion_arc = ea,
             ordered_ids = strs,
             shots = ss,
             selected = sel,
             order = [0..<length fin],
             durations = replicate (length fin) (38 / 10),
             transitions = replicate (length fin - 1) ''crossfade'',
             usedPlanner = ''ai'',
             error = None\<rparr>\<rparr>"
proof -
  from assms obtain ss strs sel where ss: "buildShots ns fin beats = Inr ss"
    and strs: "map_result (js_String ns) fin = Inr strs"
    and sel: "map_result
          (\<lambda>oid. bind_result
                   (findIndex (\<lambda>img. bind_result (js_String ns (image_id img))
                                        (\<lambda>img_text. Inr (img_text = oid))) images)
                   (\<lambda>idx. Inr (case idx of Some i \<Rightarrow> i | None \<Rightarrow> 0)))
          strs = Inr sel"
    and res: "res = \<lparr>status = 200,
          headers = [content_type, (''X-RateLimit-Remaining'', string_of_nat (remaining rateLimit))],
          body = PlanReply
            \<lparr>theme = th, emotion_arc = ea,
             ordered_ids = strs,
             shots = ss,
             selected = sel,
             order = [0..<length strs],
             durations = replicate (length strs) (38 / 10),
             transitions = replicate (nat (max 0 (int (length strs) - 1))) ''crossfade'',
             usedPlanner = ''ai'',
             error = None\<rparr>\<rparr>"
    unfolding assemble_plan_def by (elim bind_result_InrE) auto
  have l: "length strs = length fin" using strs by (simp add: map_result_Inr)
  have l2: "length sel = length fin" using sel l by (simp add: map_result_Inr)
  have n: "nat (max 0 (int (length fin) - 1)) = length fin - 1" by simp
  show ?thesis
    using ss strs l2 by (intro exI [of _ ss] exI [of _ strs] exI [of _ sel]) (simp add: res l n)
qed

lemma model_plan_reply:
  assumes "list_all has_string_id images"
    and "model_plan ns parse images (length images) rateLimit choices = Inr res"
  shows "\<exists>p. res = \<lparr>status = 200,
             headers = [content_type, (''X-RateLimit-Remaining'', string_of_nat (remaining rateLimit))],
             body = PlanReply p\<rparr>
     \<and> usedPlanner p = ''ai'' \<and> error p = None
     \<and> length (ordered_ids p) = length images
     \<and> set (ordered_ids p) \<subseteq> set (map id_text images)
     \<and> length (shots p) = length images
     \<and> length (durations p) = length images
     \<and> length (transitions p) = length images - 1"
proof -
  from assms(2) obtain th ea sel beats fin where
    fin: "final_ids ns sel images (length images) = Inr fin"
    and ap: "assemble_plan ns images rateLimit th ea fin beats = Inr res"
    unfolding model_plan_def Let_def by (elim bind_result_InrE)
  from final_ids_shape [OF assms(1) fin] obtain strs where
    strs: "map_result (js_String ns) fin = Inr strs"
    and l: "length fin = length images" and sub: "set strs \<subseteq> set (map id_text images)"
    by blast
  from assemble_plan_reply [OF ap] strs obtain ss sl where
    ss: "buildShots ns fin beats = Inr ss"
    and res: "res = \<lparr>status = 200,
          headers = [content_type, (''X-RateLimit-Remaining'', string_of_nat (remaining rateLimit))],
          body = PlanReply
            \<lparr>theme = th, emotion_arc = ea,
             ordered_ids = strs,
             shots = ss,
             selected = sl,
             order = [0..<length fin],
             durations = replicate (length fin) (38 / 10),
             transitions = replicate (length fin - 1) ''crossfade'',
             usedPlanner = ''ai'',
             error = None\<rparr>\<rparr>"
    by auto
  have "length ss = length images"
    using buildShots_length [OF ss] by (simp add: l)
  moreover have "length strs = length images"
    using strs l by (simp add: map_result_Inr)
  ultimately show ?thesis
    using sub by (simp add: res l)
qed

text \<open>The model route once the answer has been parsed to a value other than \<^verbatim>\<open>null\<close>.\<close>

lemma model_plan_parsed:
  assumes "parse (cleaned (trim answer)) = Inr raw" and "\<not> nullish raw"
    and "deterministicFallback ns images n = Inr fb"
  shows "model_plan ns parse images n rl (Some answer # others) =
     bind_result (final_ids ns (answer_ordering raw) images n) (\<lambda>fin.
       assemble_plan ns images rl
         (js_or (prop_of raw ''theme'') (JStr []))
         (if isArray (prop_of raw ''emotion_arc'') then elements (prop_of raw ''emotion_arc'') else [])
         fin
         (answer_beats raw))"
  using assms
  by (simp add: model_plan_def safeParseJSON_def try_catch_def get_prop_defined
      answer_ordering_def answer_beats_def js_or_def Let_def)

lemma rate_limit_first:
  "fst (checkRateLimit (now deployment) (clientIp (post_request rs)) Map.empty) =
     \<lparr>allowed = True, remaining = 29\<rparr>"
  by (simp add: checkRateLimit_def deployment_def Let_def RATE_LIMIT_MAX_REQUESTS_def)

lemma handler_three:
  "fst (handler ns sn parse deployment upstream Map.empty (post_request three_results)) =
     (case try_catch
            (bind_result upstream
               (model_plan ns parse (request_images ns sn three_results) 3
                  \<lparr>allowed = True, remaining = 29\<rparr>))
            (fallback_response ns (request_images ns sn three_results) 3) of
        Inr res \<Rightarrow> res
      | Inl e \<Rightarrow> \<lparr>status = 500, headers = [content_type],
                  body = FailureReply (if error_message e = [] then ''Unknown error''
                                       else error_message e)\<rparr>)"
  using handler_past_gates [OF reaches_three, of ns sn parse upstream]
  by (simp add: rate_limit_first length_three_results)

lemma image_ids_request_three:
  "image_ids ns (request_images ns sn three_results) = Inr [''a'', ''b'', ''c'']"
  by (simp add: request_images_three image_ids_def coalesce_def nullish_def string_or_index_def)

lemma parse_answers:
  "parse_table model_answers (cleaned (trim short_answer)) =
     Inr (JObj [(''orderedIds'', JArr [JStr ''a'', JStr ''b''])])"
  "parse_table model_answers (cleaned (trim repeated_answer)) =
     Inr (JObj [(''orderedIds'', JArr [JStr ''a'', JStr ''a'', JStr ''a''])])"
  "parse_table model_answers (cleaned (trim lossy_answer)) =
     Inr (JObj [(''orderedIds'', JArr [JStr ''a'', JStr ''a'', JStr ''b''])])"
  "parse_table model_answers (cleaned (trim themed_answer)) = Inr themed_plan"
  "parse_table model_answers (cleaned (trim opaque_answer)) = Inr opaque_plan"
  "parse_table model_answers (cleaned (trim null_beat_answer)) = Inr null_beat_plan"
  by (simp_all add: parse_table_def model_answers_def short_answer_def repeated_answer_def
      lossy_answer_def themed_answer_def opaque_answer_def null_beat_answer_def cleaned_def
      trim_def is_space_def fence_def)

lemma final_ids_three:
  "final_ids integer_text
      (answer_ordering (JObj [(''orderedIds'', JArr [JStr ''a'', JStr ''a'', JStr ''a''])]))
      (request_images integer_text sn three_results) 3 = Inr [JStr ''a'', JStr ''a'', JStr ''a'']"
  "final_ids integer_text
      (answer_ordering (JObj [(''orderedIds'', JArr [JStr ''a'', JStr ''a'', JStr ''b''])]))
      (request_images integer_text sn three_results) 3 = Inr [JStr ''a'', JStr ''a'', JStr ''b'']"
  "final_ids integer_text
      (answer_ordering (JObj [(''orderedIds'', JArr [JStr ''a'', JStr ''b''])]))
      (request_images integer_text sn three_results) 3 = Inr [JStr ''a'', JStr ''b'', JStr ''c'']"
  by (simp_all add: final_ids_def answer_ordering_def prop_of_def get_prop_def js_or_def
      isValidSelection_def image_ids_request_three fallback_three)

lemma three_lists:
  "[0..<3] = [0, 1, 2]"
  "replicate 3 x = [x, x, x]"
  "replicate 2 y = [y, y]"
  "enumerate 0 [a, b, c] = [(0, a), (1, b), (2, c)]"
  by (simp_all add: upt_rec numeral_3_eq_3 numeral_2_eq_2)

lemma assemble_three:
  assumes "set xs \<subseteq> {''a'', ''b'', ''c''}" and "length xs = 3"
  shows "assemble_plan integer_text (request_images integer_text sn three_results)
       \<lparr>allowed = True, remaining = 29\<rparr> th ea (map JStr xs) [] =
     Inr \<lparr>status = 200,
      headers = [content_type, (''X-RateLimit-Remaining'', ''29'')],
      body = PlanReply
        \<lparr>theme = th, emotion_arc = ea,
         ordered_ids = xs,
         shots = map (\<lambda>(idx, oid). \<lparr>shot_id = JStr oid, role = JStr (position_role idx 3),
                                      reason = JStr []\<rparr>) (enumerate 0 xs),
         selected = map (\<lambda>oid. if oid = ''a'' then 0 else if oid = ''b'' then 1 else 2) xs,
         order = [0, 1, 2],
         durations = [38 / 10, 38 / 10, 38 / 10],
         transitions = [''crossfade'', ''crossfade''],
         usedPlanner = ''ai'',
         error = None\<rparr>\<rparr>"
proof -
  have sel: "map_result
          (\<lambda>oid. bind_result
                   (findIndex (\<lambda>img. bind_result (js_String integer_text (image_id img))
                                        (\<lambda>img_text. Inr (img_text = oid)))
                      (request_images integer_text sn three_results))
                   (\<lambda>idx. Inr (case idx of Some i \<Rightarrow> i | None \<Rightarrow> 0)))
          xs = Inr (map (\<lambda>oid. if oid = ''a'' then 0 else if oid = ''b'' then 1 else 2) xs)"
    using assms(1) by (intro map_result_total) (auto simp: request_images_three)
  have sh: "map (\<lambda>(idx, oid). \<lparr>shot_id = oid, role = JStr (position_role idx 3),
                                 reason = JStr []\<rparr>) (enumerate 0 (map JStr xs))
      = map (\<lambda>(idx, oid). \<lparr>shot_id = JStr oid, role = JStr (position_role idx 3),
                              reason = JStr []\<rparr>) (enumerate 0 xs)"
    by (simp add: enumerate_eq_zip zip_map2 case_prod_unfold)
  show ?thesis
    by (simp add: assemble_plan_def buildShots_no_beats map_result_strings sel sh assms(2)
        three_lists digit_char_def del: map_map)
qed

lemma model_plan_three:
  assumes "parse_table model_answers (cleaned (trim answer)) = Inr raw" and "\<not> nullish raw"
  shows "model_plan integer_text (parse_table model_answers)
       (request_images integer_text sn three_results) 3 rl [Some answer] =
     bind_result (final_ids integer_text (answer_ordering raw)
                    (request_images integer_text sn three_results) 3) (\<lambda>fin.
       assemble_plan integer_text (request_images integer_text sn three_results) rl
         (js_or (prop_of raw ''theme'') (JStr []))
         (if isArray (prop_of raw ''emotion_arc'') then elements (prop_of raw ''emotion_arc'') else [])
         fin
         (answer_beats raw))"
  using assms by (intro model_plan_parsed [OF _ _ fallback_three])

lemma plain_answer:
  "\<not> nullish (JObj [(''orderedIds'', v)])"
  "js_or (prop_of (JObj [(''orderedIds'', v)]) ''theme'') (JStr []) = JStr []"
  "isArray (prop_of (JObj [(''orderedIds'', v)]) ''emotion_arc'') = False"
  "answer_beats (JObj [(''orderedIds'', v)]) = []"
  by (simp_all add: nullish_def prop_of_def get_prop_def js_or_def answer_beats_def)

lemma reply_repeated:
  "fst (handler integer_text sn (parse_table model_answers) deployment
          (Inr [Some repeated_answer]) Map.empty (post_request three_results)) =
     \<lparr>status = 200,
      headers = [content_type, (''X-RateLimit-Remaining'', ''29'')],
      body = PlanReply
        \<lparr>theme = JStr [], emotion_arc = [],
         ordered_ids = [''a'', ''a'', ''a''],
         shots = [\<lparr>shot_id = JStr ''a'', role = JStr ''opening'', reason = JStr []\<rparr>,
                  \<lparr>shot_id = JStr ''a'', role = JStr ''build'', reason = JStr []\<rparr>,
                  \<lparr>shot_id = JStr ''a'', role = JStr ''turn'', reason = JStr []\<rparr>],
         selected = [0, 0, 0],
         order = [0, 1, 2],
         durations = [38 / 10, 38 / 10, 38 / 10],
         transitions = [''crossfade'', ''crossfade''],
         usedPlanner = ''ai'',
         error = None\<rparr>\<rparr>"
  using assemble_three [of "[''a'', ''a'', ''a'']" sn "JStr []" "[]"]
  by (simp add: handler_three try_catch_def model_plan_three [OF parse_answers(2)] plain_answer
      final_ids_three position_role_def three_lists)

lemma reply_short:
  "fst (handler integer_text sn (parse_table model_answers) deployment
          (Inr [Some short_answer]) Map.empty (post_request three_results)) =
     \<lparr>status = 200,
      headers = [content_type, (''X-RateLimit-Remaining'', ''29'')],
      body = PlanReply
        \<lparr>theme = JStr [], emotion_arc = [],
         ordered_ids = [''a'', ''b'', ''c''],
         shots = [\<lparr>shot_id = JStr ''a'', role = JStr ''opening'', reason = JStr []\<rparr>,
                  \<lparr>shot_id = JStr ''b'', role = JStr ''build'', reason = JStr []\<rparr>,
                  \<lparr>shot_id = JStr ''c'', role = JStr ''turn'', reason = JStr []\<rparr>],
         selected = [0, 1, 2],
         order = [0, 1, 2],
         durations = [38 / 10, 38 / 10, 38 / 10],
         transitions = [''crossfade'', ''crossfade''],
         usedPlanner = ''ai'',
         error = None\<rparr>\<rparr>"
  using assemble_three [of "[''a'', ''b'', ''c'']" sn "JStr []" "[]"]
  by (simp add: handler_three try_catch_def model_plan_three [OF parse_answers(1)] plain_answer
      final_ids_three position_role_def three_lists)

lemma reply_lossy:
  "fst (handler integer_text sn (parse_table model_answers) deployment
          (Inr [Some lossy_answer]) Map.empty (post_request three_results)) =
     \<lparr>status = 200,
      headers = [content_type, (''X-RateLimit-Remaining'', ''29'')],
      body = PlanReply
        \<lparr>theme = JStr [], emotion_arc = [],
         ordered_ids = [''a'', ''a'', ''b''],
         shots = [\<lparr>shot_id = JStr ''a'', role = JStr ''opening'', reason = JStr []\<rparr>,
                  \<lparr>shot_id = JStr ''a'', role = JStr ''build'', reason = JStr []\<rparr>,
                  \<lparr>shot_id = JStr ''b'', role = JStr ''turn'', reason = JStr []\<rparr>],
         selected = [0, 0, 1],
         order = [0, 1, 2],
         durations = [38 / 10, 38 / 10, 38 / 10],
         transitions = [''crossfade'', ''crossfade''],
         usedPlanner = ''ai'',
         error = None\<rparr>\<rparr>"
  using assemble_three [of "[''a'', ''a'', ''b'']" sn "JStr []" "[]"]
  by (simp add: handler_three try_catch_def model_plan_three [OF parse_answers(3)] plain_answer
      final_ids_three position_role_def three_lists)

lemma reply_abort:
  "fst (handler integer_text sn (parse_table model_answers) deployment
          (Inl (Error ''AbortError'' ''Request was aborted.'')) Map.empty
          (post_request three_results)) =
     \<lparr>status = 200, headers = [content_type],
      body = PlanReply
        \<lparr>theme = JStr [], emotion_arc = [],
         ordered_ids = [''a'', ''b'', ''c''],
         shots = [\<lparr>shot_id = JStr ''a'', role = JStr ''opening'', reason = JStr []\<rparr>,
                  \<lparr>shot_id = JStr ''b'', role = JStr ''build'', reason = JStr []\<rparr>,
                  \<lparr>shot_id = JStr ''c'', role = JStr ''turn'', reason = JStr []\<rparr>],
         selected = [0, 1, 2],
         order = [0, 1, 2],
         durations = [38 / 10, 38 / 10, 38 / 10],
         transitions = [''crossfade'', ''crossfade''],
         usedPlanner = ''fallback'',
         error = None\<rparr>\<rparr>"
  by (simp add: handler_three try_catch_def fallback_response_def fallback_three
      buildShots_no_beats position_role_def three_lists)

lemma lossy_answer_valid:
  "isValidSelection ns
     (answer_ordering (JObj [(''orderedIds'', JArr [JStr ''a'', JStr ''a'', JStr ''b''])]))
     (request_images ns sn three_results) 3 = Inr True"
  by (simp add: answer_ordering_def prop_of_def get_prop_def js_or_def isValidSelection_def
      image_ids_request_three)

text \<open>
  C1. The final plan's \<^verbatim>\<open>ordered_ids\<close> is to be a permutation of the item ids on every
  route, and the prompt demands as much of the model (all ids, each exactly once). On the
  success route the code does not keep to it: the validator accepts any ordering of the
  right length made of item ids, so for the items \<open>a\<close>, \<open>b\<close>, \<open>c\<close> a model answer that orders
  \<open>a\<close>, \<open>a\<close>, \<open>b\<close> passes and is returned, \<open>c\<close> omitted and \<open>a\<close> twice, and so is one that
  orders \<open>a\<close>, \<open>a\<close>, \<open>a\<close>.
\<close>

theorem final_plan_repeats_ids:
  "reaches_model integer_text example_numbers deployment Map.empty (post_request three_results)
     three_results
   \<and> image_ids integer_text (request_images integer_text example_numbers three_results)
       = Inr [''a'', ''b'', ''c'']
   \<and> map_option ordered_ids
        (reply_plan (fst (handler integer_text example_numbers (parse_table model_answers) deployment
           (Inr [Some lossy_answer]) Map.empty (post_request three_results))))
       = Some [''a'', ''a'', ''b'']
   \<and> map_option usedPlanner
        (reply_plan (fst (handler integer_text example_numbers (parse_table model_answers) deployment
           (Inr [Some lossy_answer]) Map.empty (post_request three_results))))
       = Some ''ai''
   \<and> map_option ordered_ids
        (reply_plan (fst (handler integer_text example_numbers (parse_table model_answers) deployment
           (Inr [Some repeated_answer]) Map.empty (post_request three_results))))
       = Some [''a'', ''a'', ''a'']
   \<and> map_option (distinct \<circ> ordered_ids)
        (reply_plan (fst (handler integer_text example_numbers (parse_table model_answers) deployment
           (Inr [Some repeated_answer]) Map.empty (post_request three_results))))
       = Some False"
  by (simp add: reaches_three image_ids_request_three reply_repeated reply_lossy reply_plan_def)

text \<open>
  What does hold of the final plan, on every route: for every request that reaches the
  model call and whatever the model call does, the handler answers 200 with a plan whose
  \<^verbatim>\<open>ordered_ids\<close> has one entry per item, each entry being the id of an item of the
  request, with as many shots and durations as items and \<open>max(0, n - 1)\<close> transitions.
  The ordering is a permutation of the item ids whenever it has no repeated entry and the
  item ids are pairwise distinct, and it is the item ids in request order on the timeout
  and error routes.
\<close>

theorem final_plan_shape:
  assumes "reaches_model ns sn ev rateLimitMap req rs"
  shows "\<exists>p ids. image_ids ns (request_images ns sn rs) = Inr ids
     \<and> status (fst (handler ns sn parse ev upstream rateLimitMap req)) = 200
     \<and> reply_plan (fst (handler ns sn parse ev upstream rateLimitMap req)) = Some p
     \<and> length (ordered_ids p) = length rs
     \<and> set (ordered_ids p) \<subseteq> set ids
     \<and> length (shots p) = length rs
     \<and> int (length (transitions p)) = max 0 (int (length rs) - 1)
     \<and> length (durations p) = length rs
     \<and> (distinct (ordered_ids p) \<and> distinct ids \<longrightarrow> mset (ordered_ids p) = mset ids)
     \<and> (usedPlanner p = ''fallback'' \<longrightarrow> ordered_ids p = ids)"
proof -
  define images where "images = request_images ns sn rs"
  define ids where "ids = map id_text images"
  define rl where "rl = fst (checkRateLimit (now ev) (clientIp req) rateLimitMap)"
  have n: "length images = length rs" by (simp add: images_def length_request_images [OF assms])
  have s: "list_all has_string_id images"
    unfolding images_def by (rule request_images_strings [OF assms])
  have ii: "image_ids ns images = Inr ids" unfolding ids_def by (rule image_ids_strings [OF s])
  define res where "res = fst (handler ns sn parse ev upstream rateLimitMap req)"
  have res: "res = (case try_catch (bind_result upstream (model_plan ns parse images (length images) rl))
            (fallback_response ns images (length images)) of
        Inr r \<Rightarrow> r
      | Inl e \<Rightarrow> \<lparr>status = 500, headers = [content_type],
                  body = FailureReply (if error_message e = [] then ''Unknown error''
                                       else error_message e)\<rparr>)"
    unfolding res_def n unfolding images_def rl_def
    by (rule handler_past_gates [OF assms])
  have shape: "\<exists>p. status res = 200 \<and> reply_plan res = Some p
     \<and> length (ordered_ids p) = length images
     \<and> set (ordered_ids p) \<subseteq> set ids
     \<and> length (shots p) = length images
     \<and> length (transitions p) = length images - 1
     \<and> length (durations p) = length images
     \<and> (usedPlanner p = ''fallback'' \<longrightarrow> ordered_ids p = ids)"
  proof (cases "bind_result upstream (model_plan ns parse images (length images) rl)")
    case (Inl e)
    then have "res = (case fallback_response ns images (length images) e of Inr r \<Rightarrow> r
       | Inl e \<Rightarrow> \<lparr>status = 500, headers = [content_type],
                  body = FailureReply (if error_message e = [] then ''Unknown error''
                                       else error_message e)\<rparr>)"
      by (simp add: res try_catch_def)
    then show ?thesis
      by (simp add: fallback_response_eq [OF s] reply_plan_def ids_def)
  next
    case (Inr r)
    then have r: "res = r" by (simp add: res try_catch_def)
    from Inr obtain choices where "model_plan ns parse images (length images) rl choices = Inr r"
      by (rule bind_result_InrE)
    from model_plan_reply [OF s this] show ?thesis
      by (auto simp: r reply_plan_def ids_def)
  qed
  then obtain p where p: "status res = 200" "reply_plan res = Some p"
     "length (ordered_ids p) = length images"
     "set (ordered_ids p) \<subseteq> set ids"
     "length (shots p) = length images"
     "length (transitions p) = length images - 1"
     "length (durations p) = length images"
     "usedPlanner p = ''fallback'' \<longrightarrow> ordered_ids p = ids"
    by blast
  have li: "length ids = length images" by (simp add: ids_def)
  have perm: "mset (ordered_ids p) = mset ids"
    if "distinct (ordered_ids p)" "distinct ids"
    using that p(3,4) li by (intro distinct_same_length_subset) simp_all
  have tr: "int (length (transitions p)) = max 0 (int (length rs) - 1)"
    using p(6) n by auto
  show ?thesis
    using p perm tr n ii unfolding res_def images_def
    by (intro exI [of _ p] exI [of _ ids]) simp
qed

theorem final_plan_shape_on_timeout:
  "reaches_model integer_text example_numbers deployment Map.empty (post_request three_results)
     three_results
   \<and> (\<exists>p. reply_plan (fst (handler integer_text example_numbers (parse_table model_answers)
               deployment (Inl (Error ''AbortError'' ''Request was aborted.'')) Map.empty
               (post_request three_results))) = Some p
         \<and> ordered_ids p = [''a'', ''b'', ''c'']
         \<and> distinct (ordered_ids p)
         \<and> image_ids integer_text (request_images integer_text example_numbers three_results)
             = Inr (ordered_ids p)
         \<and> length (shots p) = 3 \<and> length (transitions p) = 2 \<and> length (durations p) = 3
         \<and> usedPlanner p = ''fallback'')"
  using final_plan_shape [OF reaches_three, of integer_text example_numbers
          "parse_table model_answers" "Inl (Error ''AbortError'' ''Request was aborted.'')"]
        reaches_three
  by (auto simp: reply_abort reply_plan_def image_ids_request_three)

lemma short_invalid:
  "isValidSelection ns (answer_ordering (JObj [(''orderedIds'', JArr [JStr ''a'', JStr ''b''])]))
       (request_images ns sn three_results) 3 = Inr False"
  by (simp add: answer_ordering_def prop_of_def get_prop_def js_or_def isValidSelection_def)

text \<open>
  C2, as stated, fails. When the parsed ordering fails the validator (here an ordering of
  two ids for three items) the plan carries the fallback ordering but is tagged \<^verbatim>\<open>ai\<close>,
  not \<^verbatim>\<open>fallback\<close>.
\<close>

theorem invalid_ordering_tag_counterexample:
  "reaches_model integer_text example_numbers deployment Map.empty (post_request three_results)
     three_results
   \<and> deterministicFallback integer_text (request_images integer_text example_numbers three_results) 3
       = Inr [''a'', ''b'', ''c'']
   \<and> isValidSelection integer_text
          (answer_ordering (JObj [(''orderedIds'', JArr [JStr ''a'', JStr ''b''])]))
          (request_images integer_text example_numbers three_results) 3 = Inr False
   \<and> map_option ordered_ids
        (reply_plan (fst (handler integer_text example_numbers (parse_table model_answers) deployment
           (Inr [Some short_answer]) Map.empty (post_request three_results))))
       = Some [''a'', ''b'', ''c'']
   \<and> map_option usedPlanner
        (reply_plan (fst (handler integer_text example_numbers (parse_table model_answers) deployment
           (Inr [Some short_answer]) Map.empty (post_request three_results))))
       = Some ''ai''
   \<and> map_option usedPlanner
        (reply_plan (fst (handler integer_text example_numbers (parse_table model_answers) deployment
           (Inr [Some short_answer]) Map.empty (post_request three_results))))
       \<noteq> Some ''fallback''"
  by (simp add: reaches_three fallback_three short_invalid reply_short reply_plan_def)

text \<open>The original indices of ids, for images whose ids are strings.\<close>

lemma findIndex_strings:
  assumes "list_all has_string_id images"
  shows "\<exists>r. findIndex (\<lambda>img. bind_result (js_String ns (image_id img))
                                  (\<lambda>img_text. Inr (img_text = oid))) images = Inr r"
  using assms
proof (induction images)
  case Nil
  then show ?case by simp
next
  case (Cons img images)
  then obtain r where "findIndex (\<lambda>img. bind_result (js_String ns (image_id img))
                                  (\<lambda>img_text. Inr (img_text = oid))) images = Inr r"
    by auto
  moreover have "image_id img = JStr (id_text img)"
    using Cons.prems by (simp add: has_string_id_iff)
  ultimately show ?case by simp
qed

lemma selected_total:
  assumes "list_all has_string_id images"
  shows "\<exists>sel. map_result
          (\<lambda>oid. bind_result
                   (findIndex (\<lambda>img. bind_result (js_String ns (image_id img))
                                        (\<lambda>img_text. Inr (img_text = oid))) images)
                   (\<lambda>idx. Inr (case idx of Some i \<Rightarrow> i | None \<Rightarrow> 0)))
          strs = Inr sel \<and> length sel = length strs"
proof -
  define f where "f = (\<lambda>oid. bind_result
                   (findIndex (\<lambda>img. bind_result (js_String ns (image_id img))
                                        (\<lambda>img_text. Inr (img_text = oid))) images)
                   (\<lambda>idx. Inr (case idx of Some i \<Rightarrow> i | None \<Rightarrow> (0::nat))))"
  define g where "g = (\<lambda>oid. case f oid of Inr i \<Rightarrow> i | Inl e \<Rightarrow> 0)"
  have "f oid = Inr (g oid)" for oid
    using findIndex_strings [OF assms, of ns oid] by (auto simp: f_def g_def)
  then have "map_result f strs = Inr (map g strs)"
    by (intro map_result_total) simp
  then show ?thesis unfolding f_def by (intro exI [of _ "map g strs"]) simp
qed

text \<open>The reply of the model route over the fallback ordering.\<close>

lemma assemble_fallback_ordering:
  assumes "list_all has_string_id images"
    and "buildShots ns (map JStr ids) beats = Inr ss"
  shows "\<exists>sel. length sel = length ids
     \<and> assemble_plan ns images rl th ea (map JStr ids) beats =
       Inr \<lparr>status = 200,
          headers = [content_type, (''X-RateLimit-Remaining'', string_of_nat (remaining rl))],
          body = PlanReply
            \<lparr>theme = th, emotion_arc = ea,
             ordered_ids = ids,
             shots = ss,
             selected = sel,
             order = [0..<length ids],
             durations = replicate (length ids) (38 / 10),
             transitions = replicate (length ids - 1) ''crossfade'',
             usedPlanner = ''ai'',
             error = None\<rparr>\<rparr>"
proof -
  from selected_total [OF assms(1), of ns ids] obtain sel where
    sel: "map_result
          (\<lambda>oid. bind_result
                   (findIndex (\<lambda>img. bind_result (js_String ns (image_id img))
                                        (\<lambda>img_text. Inr (img_text = oid))) images)
                   (\<lambda>idx. Inr (case idx of Some i \<Rightarrow> i | None \<Rightarrow> 0)))
          ids = Inr sel" and l: "length sel = length ids"
    by blast
  have n: "nat (max 0 (int (length ids) - 1)) = length ids - 1" by simp
  show ?thesis
    using l by (intro exI [of _ sel])
      (simp add: assemble_plan_def assms(2) map_result_strings sel n)
qed

text \<open>
  C2, amended. The model call has resolved and its answer parses to a value other than
  \<^verbatim>\<open>null\<close>. When the validator returns false for the parsed ordering and shots can be
  built from the answer's beats, the handler answers 200 with a plan whose \<^verbatim>\<open>ordered_ids\<close>
  is the Fallback Orderer's output and whose \<^verbatim>\<open>usedPlanner\<close> is \<^verbatim>\<open>ai\<close>, without an
  \<^verbatim>\<open>error\<close>: the plan keeps the theme and the emotion arc of the answer, and its shots are
  built from the answer's beats over the fallback ordering. The tag \<^verbatim>\<open>fallback\<close> is set
  in the \<^verbatim>\<open>catch\<close> clause only: when the validator throws, or when it returns false and
  building the shots throws, the handler answers 200 with the plan of the error route,
  made of the fallback ordering with an empty theme and emotion arc, tagged \<^verbatim>\<open>fallback\<close>
  and carrying the message of what was thrown.
\<close>

theorem invalid_ordering_replaced:
  assumes "reaches_model ns sn ev rateLimitMap req rs"
    and "parse (cleaned (trim answer)) = Inr raw" and "\<not> nullish raw"
    and "deterministicFallback ns (request_images ns sn rs) (length rs) = Inr ids"
  shows "(isValidSelection ns (answer_ordering raw) (request_images ns sn rs) (length rs) = Inr False
          \<and> buildShots ns (map JStr ids) (answer_beats raw) = Inr ss \<longrightarrow>
          (\<exists>sel. length sel = length rs
             \<and> fst (handler ns sn parse ev (Inr (Some answer # others)) rateLimitMap req) =
                \<lparr>status = 200,
                 headers = [content_type,
                   (''X-RateLimit-Remaining'', string_of_nat (remaining
                      (fst (checkRateLimit (now ev) (clientIp req) rateLimitMap))))],
                 body = PlanReply
                   \<lparr>theme = js_or (prop_of raw ''theme'') (JStr []),
                    emotion_arc = (if isArray (prop_of raw ''emotion_arc'')
                                   then elements (prop_of raw ''emotion_arc'') else []),
                    ordered_ids = ids,
                    shots = ss,
                    selected = sel,
                    order = [0..<length rs],
                    durations = replicate (length rs) (38 / 10),
                    transitions = replicate (length rs - 1) ''crossfade'',
                    usedPlanner = ''ai'',
                    error = None\<rparr>\<rparr>))
     \<and> (isValidSelection ns (answer_ordering raw) (request_images ns sn rs) (length rs) = Inl e
          \<or> isValidSelection ns (answer_ordering raw) (request_images ns sn rs) (length rs) = Inr False
             \<and> buildShots ns (map JStr ids) (answer_beats raw) = Inl e \<longrightarrow>
          (\<exists>p. status (fst (handler ns sn parse ev (Inr (Some answer # others)) rateLimitMap req)) = 200
             \<and> reply_plan (fst (handler ns sn parse ev (Inr (Some answer # others)) rateLimitMap req))
                  = Some p
             \<and> theme p = JStr [] \<and> emotion_arc p = []
             \<and> ordered_ids p = ids
             \<and> usedPlanner p = ''fallback''
             \<and> error p = (if error_name e = ''AbortError'' then None else Some (error_message e))))"
proof -
  define images where "images = request_images ns sn rs"
  define rl where "rl = fst (checkRateLimit (now ev) (clientIp req) rateLimitMap)"
  define th where "th = js_or (prop_of raw ''theme'') (JStr [])"
  define ea where "ea = (if isArray (prop_of raw ''emotion_arc'')
                          then elements (prop_of raw ''emotion_arc'') else [])"
  have n: "length images = length rs" by (simp add: images_def length_request_images [OF assms(1)])
  have s: "list_all has_string_id images"
    unfolding images_def by (rule request_images_strings [OF assms(1)])
  have fb: "deterministicFallback ns images (length rs) = Inr ids"
    using assms(4) by (simp add: images_def)
  have ids: "ids = map id_text images"
    using fb deterministicFallback_strings [OF s, of ns] by (simp add: n)
  have li: "length ids = length rs" by (simp add: ids n)
  have mp: "model_plan ns parse images (length rs) rl (Some answer # others) =
     bind_result (final_ids ns (answer_ordering raw) images (length rs)) (\<lambda>fin.
       assemble_plan ns images rl th ea fin (answer_beats raw))"
    unfolding th_def ea_def
    by (rule model_plan_parsed [where parse = parse and answer = answer, OF assms(2,3) fb])
  have h: "fst (handler ns sn parse ev (Inr (Some answer # others)) rateLimitMap req) =
     (case try_catch (model_plan ns parse images (length rs) rl (Some answer # others))
            (fallback_response ns images (length rs)) of
        Inr res \<Rightarrow> res
      | Inl e \<Rightarrow> \<lparr>status = 500, headers = [content_type],
                  body = FailureReply (if error_message e = [] then ''Unknown error''
                                       else error_message e)\<rparr>)"
    using handler_past_gates [OF assms(1), of parse "Inr (Some answer # others)"]
    by (simp add: images_def rl_def)
  have thrown: "\<exists>p. status (fst (handler ns sn parse ev (Inr (Some answer # others)) rateLimitMap req)) = 200
             \<and> reply_plan (fst (handler ns sn parse ev (Inr (Some answer # others)) rateLimitMap req))
                  = Some p
             \<and> theme p = JStr [] \<and> emotion_arc p = []
             \<and> ordered_ids p = ids
             \<and> usedPlanner p = ''fallback''
             \<and> error p = (if error_name e = ''AbortError'' then None else Some (error_message e))"
    if "model_plan ns parse images (length rs) rl (Some answer # others) = Inl e"
    using that fallback_response_eq [OF s, of ns e]
    by (simp add: h try_catch_def n reply_plan_def ids)
  show ?thesis
  proof (intro conjI impI)
    assume a: "isValidSelection ns (answer_ordering raw) (request_images ns sn rs) (length rs) = Inr False
          \<and> buildShots ns (map JStr ids) (answer_beats raw) = Inr ss"
    then have fin: "final_ids ns (answer_ordering raw) images (length rs) = Inr (map JStr ids)"
      by (simp add: final_ids_def images_def [symmetric] fb)
    from a have ss: "buildShots ns (map JStr ids) (answer_beats raw) = Inr ss" by simp
    from assemble_fallback_ordering [OF s ss, of rl th ea] obtain sel where
      l: "length sel = length ids"
      and ap: "assemble_plan ns images rl th ea (map JStr ids) (answer_beats raw) =
       Inr \<lparr>status = 200,
          headers = [content_type, (''X-RateLimit-Remaining'', string_of_nat (remaining rl))],
          body = PlanReply
            \<lparr>theme = th, emotion_arc = ea,
             ordered_ids = ids,
             shots = ss,
             selected = sel,
             order = [0..<length ids],
             durations = replicate (length ids) (38 / 10),
             transitions = replicate (length ids - 1) ''crossfade'',
             usedPlanner = ''ai'',
             error = None\<rparr>\<rparr>"
      by blast
    show "\<exists>sel. length sel = length rs
             \<and> fst (handler ns sn parse ev (Inr (Some answer # others)) rateLimitMap req) =
                \<lparr>status = 200,
                 headers = [content_type,
                   (''X-RateLimit-Remaining'', string_of_nat (remaining
                      (fst (checkRateLimit (now ev) (clientIp req) rateLimitMap))))],
                 body = PlanReply
                   \<lparr>theme = js_or (prop_of raw ''theme'') (JStr []),
                    emotion_arc = (if isArray (prop_of raw ''emotion_arc'')
                                   then elements (prop_of raw ''emotion_arc'') else []),
                    ordered_ids = ids,
                    shots = ss,
                    selected = sel,
                    order = [0..<length rs],
                    durations = replicate (length rs) (38 / 10),
                    transitions = replicate (length rs - 1) ''crossfade'',
                    usedPlanner = ''ai'',
                    error = None\<rparr>\<rparr>"
      using l li
      by (intro exI [of _ sel])
         (simp add: h mp fin ap try_catch_def th_def [symmetric] ea_def [symmetric]
            rl_def [symmetric])
  next
    assume a: "isValidSelection ns (answer_ordering raw) (request_images ns sn rs) (length rs) = Inl e
          \<or> isValidSelection ns (answer_ordering raw) (request_images ns sn rs) (length rs) = Inr False
             \<and> buildShots ns (map JStr ids) (answer_beats raw) = Inl e"
    have "model_plan ns parse images (length rs) rl (Some answer # others) = Inl e"
      using a
    proof
      assume "isValidSelection ns (answer_ordering raw) (request_images ns sn rs) (length rs) = Inl e"
      then show ?thesis by (simp add: mp final_ids_def images_def [symmetric])
    next
      assume b: "isValidSelection ns (answer_ordering raw) (request_images ns sn rs) (length rs) = Inr False
             \<and> buildShots ns (map JStr ids) (answer_beats raw) = Inl e"
      then have "final_ids ns (answer_ordering raw) images (length rs) = Inr (map JStr ids)"
        by (simp add: final_ids_def images_def [symmetric] fb)
      with b show ?thesis by (simp add: mp assemble_plan_def)
    qed
    then show "\<exists>p. status (fst (handler ns sn parse ev (Inr (Some answer # others)) rateLimitMap req)) = 200
             \<and> reply_plan (fst (handler ns sn parse ev (Inr (Some answer # others)) rateLimitMap req))
                  = Some p
             \<and> theme p = JStr [] \<and> emotion_arc p = []
             \<and> ordered_ids p = ids
             \<and> usedPlanner p = ''fallback''
             \<and> error p = (if error_name e = ''AbortError'' then None else Some (error_message e))"
      by (rule thrown)
  qed
qed

lemma fallback_three_length:
  "deterministicFallback ns (request_images ns sn three_results) (length three_results)
     = Inr [''a'', ''b'', ''c'']"
  by (simp add: length_three_results fallback_three)

lemma themed_plan_read:
  "\<not> nullish themed_plan"
  "isValidSelection ns (answer_ordering themed_plan) (request_images ns sn three_results) 3
     = Inr False"
  "js_or (prop_of themed_plan ''theme'') (JStr []) = JStr ''sea''"
  "isArray (prop_of themed_plan ''emotion_arc'')"
  "elements (prop_of themed_plan ''emotion_arc'')
     = [JObj [(''beat'', JStr ''turn''), (''ids'', JArr [JStr ''b''])]]"
  "buildShots integer_text [JStr ''a'', JStr ''b'', JStr ''c''] (answer_beats themed_plan) =
     Inr [\<lparr>shot_id = JStr ''a'', role = JStr ''opening'', reason = JStr []\<rparr>,
          \<lparr>shot_id = JStr ''b'', role = JStr ''climax'', reason = JStr ''peak''\<rparr>,
          \<lparr>shot_id = JStr ''c'', role = JStr ''turn'', reason = JStr []\<rparr>]"
  by (simp_all add: themed_plan_def nullish_def answer_ordering_def answer_beats_def prop_of_def
      get_prop_def js_or_def isValidSelection_def buildShots_def
      opt_prop_def position_role_def)

lemma opaque_plan_read:
  "\<not> nullish opaque_plan"
  "isValidSelection ns (answer_ordering opaque_plan) (request_images ns sn three_results) 3
     = Inl primitive_error"
  by (simp_all add: opaque_plan_def nullish_def answer_ordering_def prop_of_def
      get_prop_def js_or_def isValidSelection_def image_ids_request_three)

lemma null_beat_plan_read:
  "\<not> nullish null_beat_plan"
  "isValidSelection ns (answer_ordering null_beat_plan) (request_images ns sn three_results) 3
     = Inr False"
  "buildShots ns [JStr ''a'', JStr ''b'', JStr ''c''] (answer_beats null_beat_plan)
     = Inl (type_error JNull ''id'')"
  by (simp_all add: null_beat_plan_def nullish_def answer_ordering_def answer_beats_def prop_of_def
      get_prop_def js_or_def isValidSelection_def buildShots_def)

theorem invalid_ordering_replaced_witness:
  "reaches_model integer_text example_numbers deployment Map.empty (post_request three_results)
     three_results
   \<and> parse_table model_answers (cleaned (trim themed_answer)) = Inr themed_plan
   \<and> \<not> nullish themed_plan
   \<and> deterministicFallback integer_text (request_images integer_text example_numbers three_results)
        (length three_results) = Inr [''a'', ''b'', ''c'']
   \<and> isValidSelection integer_text (answer_ordering themed_plan)
        (request_images integer_text example_numbers three_results) (length three_results)
        = Inr False
   \<and> buildShots integer_text (map JStr [''a'', ''b'', ''c'']) (answer_beats themed_plan) =
        Inr [\<lparr>shot_id = JStr ''a'', role = JStr ''opening'', reason = JStr []\<rparr>,
             \<lparr>shot_id = JStr ''b'', role = JStr ''climax'', reason = JStr ''peak''\<rparr>,
             \<lparr>shot_id = JStr ''c'', role = JStr ''turn'', reason = JStr []\<rparr>]
   \<and> (\<exists>sel. length sel = 3
         \<and> fst (handler integer_text example_numbers (parse_table model_answers) deployment
                 (Inr [Some themed_answer]) Map.empty (post_request three_results)) =
            \<lparr>status = 200,
             headers = [content_type, (''X-RateLimit-Remaining'', ''29'')],
             body = PlanReply
               \<lparr>theme = JStr ''sea'',
                emotion_arc = [JObj [(''beat'', JStr ''turn''), (''ids'', JArr [JStr ''b''])]],
                ordered_ids = [''a'', ''b'', ''c''],
                shots = [\<lparr>shot_id = JStr ''a'', role = JStr ''opening'', reason = JStr []\<rparr>,
                         \<lparr>shot_id = JStr ''b'', role = JStr ''climax'', reason = JStr ''peak''\<rparr>,
                         \<lparr>shot_id = JStr ''c'', role = JStr ''turn'', reason = JStr []\<rparr>],
                selected = sel,
                order = [0, 1, 2],
                durations = [38 / 10, 38 / 10, 38 / 10],
                transitions = [''crossfade'', ''crossfade''],
                usedPlanner = ''ai'',
                error = None\<rparr>\<rparr>)
   \<and> parse_table model_answers (cleaned (trim opaque_answer)) = Inr opaque_plan
   \<and> isValidSelection integer_text (answer_ordering opaque_plan)
        (request_images integer_text example_numbers three_results) (length three_results)
        = Inl primitive_error
   \<and> (\<exists>p. reply_plan (fst (handler integer_text example_numbers (parse_table model_answers)
               deployment (Inr [Some opaque_answer]) Map.empty (post_request three_results)))
             = Some p
         \<and> ordered_ids p = [''a'', ''b'', ''c'']
         \<and> usedPlanner p = ''fallback''
         \<and> error p = Some ''Cannot convert object to primitive value'')
   \<and> parse_table model_answers (cleaned (trim null_beat_answer)) = Inr null_beat_plan
   \<and> buildShots integer_text (map JStr [''a'', ''b'', ''c'']) (answer_beats null_beat_plan)
        = Inl (type_error JNull ''id'')
   \<and> (\<exists>p. reply_plan (fst (handler integer_text example_numbers (parse_table model_answers)
               deployment (Inr [Some null_beat_answer]) Map.empty (post_request three_results)))
             = Some p
         \<and> ordered_ids p = [''a'', ''b'', ''c'']
         \<and> usedPlanner p = ''fallback''
         \<and> error p = Some (error_message (type_error JNull ''id'')))"
proof -
  note t = invalid_ordering_replaced [where ns = integer_text and sn = example_numbers
      and parse = "parse_table model_answers" and others = "[]", OF reaches_three _ _
      fallback_three_length]
  note themed = t [where answer = themed_answer and e = primitive_error
      and ss = "[\<lparr>shot_id = JStr ''a'', role = JStr ''opening'', reason = JStr []\<rparr>,
                 \<lparr>shot_id = JStr ''b'', role = JStr ''climax'', reason = JStr ''peak''\<rparr>,
                 \<lparr>shot_id = JStr ''c'', role = JStr ''turn'', reason = JStr []\<rparr>]",
      OF parse_answers(4) themed_plan_read(1)]
  note opaque = t [where answer = opaque_answer and e = primitive_error and ss = "[]",
      OF parse_answers(5) opaque_plan_read(1)]
  note null_beat = t [where answer = null_beat_answer and e = "type_error JNull ''id''"
      and ss = "[]", OF parse_answers(6) null_beat_plan_read(1)]
  have a: "\<exists>sel. length sel = 3
         \<and> fst (handler integer_text example_numbers (parse_table model_answers) deployment
                 (Inr [Some themed_answer]) Map.empty (post_request three_results)) =
            \<lparr>status = 200,
             headers = [content_type, (''X-RateLimit-Remaining'', ''29'')],
             body = PlanReply
               \<lparr>theme = JStr ''sea'',
                emotion_arc = [JObj [(''beat'', JStr ''turn''), (''ids'', JArr [JStr ''b''])]],
                ordered_ids = [''a'', ''b'', ''c''],
                shots = [\<lparr>shot_id = JStr ''a'', role = JStr ''opening'', reason = JStr []\<rparr>,
                         \<lparr>shot_id = JStr ''b'', role = JStr ''climax'', reason = JStr ''peak''\<rparr>,
                         \<lparr>shot_id = JStr ''c'', role = JStr ''turn'', reason = JStr []\<rparr>],
                selected = sel,
                order = [0, 1, 2],
                durations = [38 / 10, 38 / 10, 38 / 10],
                transitions = [''crossfade'', ''crossfade''],
                usedPlanner = ''ai'',
                error = None\<rparr>\<rparr>"
    using themed
    by (simp add: themed_plan_read length_three_results rate_limit_first three_lists digit_char_def)
  have b: "\<exists>p. reply_plan (fst (handler integer_text example_numbers (parse_table model_answers)
               deployment (Inr [Some opaque_answer]) Map.empty (post_request three_results)))
             = Some p
         \<and> ordered_ids p = [''a'', ''b'', ''c'']
         \<and> usedPlanner p = ''fallback''
         \<and> error p = Some ''Cannot convert object to primitive value''"
    using opaque by (auto simp: opaque_plan_read primitive_error_def length_three_results)
  have c: "\<exists>p. reply_plan (fst (handler integer_text example_numbers (parse_table model_answers)
               deployment (Inr [Some null_beat_answer]) Map.empty (post_request three_results)))
             = Some p
         \<and> ordered_ids p = [''a'', ''b'', ''c'']
         \<and> usedPlanner p = ''fallback''
         \<and> error p = Some (error_message (type_error JNull ''id''))"
    using null_beat by (auto simp: null_beat_plan_read type_error_def length_three_results)
  show ?thesis
    using a b c reaches_three [of integer_text example_numbers]
      fallback_three_length [of integer_text example_numbers]
    by (simp add: parse_answers themed_plan_read opaque_plan_read null_beat_plan_read
        length_three_results)
qed

section \<open>Item ids\<close>

lemma digit_value: "d < 10 \<Longrightarrow> (of_char (digit_char d) :: nat) = 48 + d"
proof -
  assume "d < 10"
  then have "d = 0 \<or> d = 1 \<or> d = 2 \<or> d = 3 \<or> d = 4 \<or> d = 5 \<or> d = 6 \<or> d = 7 \<or> d = 8 \<or> d = 9"
    by arith
  then show ?thesis by (auto simp: digit_char_def)
qed

lemma nat_of_string_snoc:
  "nat_of_string (t @ [c]) = 10 * nat_of_string t + (of_char c - 48)"
  by (simp add: nat_of_string_def)

lemma nat_of_string_of_nat: "nat_of_string (string_of_nat n) = n"
proof (induction n rule: string_of_nat.induct)
  case (1 n)
  show ?case
  proof (cases "n < 10")
    case True
    then show ?thesis
      by (subst string_of_nat.simps)
         (simp del: string_of_nat.simps add: nat_of_string_def digit_value)
  next
    case False
    then have "nat_of_string (string_of_nat n) =
        10 * nat_of_string (string_of_nat (n div 10)) + (of_char (digit_char (n mod 10)) - 48)"
      by (subst string_of_nat.simps) (simp del: string_of_nat.simps add: nat_of_string_snoc)
    also have "\<dots> = 10 * (n div 10) + n mod 10"
      using 1 False by (simp del: string_of_nat.simps add: digit_value)
    finally show ?thesis by simp
  qed
qed

lemma inj_string_of_nat: "inj string_of_nat"
  by (rule inj_on_inverseI [of _ nat_of_string]) (rule nat_of_string_of_nat)

lemma string_or_index_text: "string_or_index ns v idx = Inr s \<Longrightarrow> has_text ns v"
  by (cases "nullish v") (auto simp: string_or_index_def nullish_def has_text_def)

lemma string_or_index_defined:
  "has_text ns v \<Longrightarrow> \<exists>s. string_or_index ns v idx = Inr s"
  by (cases "js_String ns v") (auto simp: string_or_index_def has_text_def)

lemma analysis_bag_number:
  assumes "analysis_bag ns sn a = Inr bag"
  shows "has_number ns sn
     (coalesce (coalesce (prop_of a ''visual_energy'') (prop_of a ''visualWeight'')) (JNum 5))"
proof -
  from assms obtain ve vw n where "get_prop a ''visual_energy'' = Inr ve"
    "get_prop a ''visualWeight'' = Inr vw"
    "js_Number ns sn (coalesce (coalesce ve vw) (JNum 5)) = Inr n"
    unfolding analysis_bag_def by (elim bind_result_InrE)
  then show ?thesis by (auto dest!: get_prop_InrD simp: has_number_def)
qed

lemma analysis_bag_defined:
  assumes "\<not> nullish a"
    and "has_number ns sn
     (coalesce (coalesce (prop_of a ''visual_energy'') (prop_of a ''visualWeight'')) (JNum 5))"
  shows "\<exists>bag. analysis_bag ns sn a = Inr bag"
proof -
  from assms(2) obtain n where
    "js_Number ns sn
       (coalesce (coalesce (prop_of a ''visual_energy'') (prop_of a ''visualWeight'')) (JNum 5))
     = Inr n"
    by (auto simp: has_number_def split: sum.splits)
  then show ?thesis
    by (simp add: analysis_bag_def get_prop_defined [OF assms(1)])
qed

lemma normalize_positional:
  assumes "normalize ns sn rs = Inr images"
    and "\<forall>a\<in>set rs. nullish (prop_of a ''id'') \<and> nullish (prop_of a ''filename'')"
  shows "map image_id images = map (JStr \<circ> string_of_nat) [0..<length rs]"
proof (rule nth_equalityI)
  show "length (map image_id images) = length (map (JStr \<circ> string_of_nat) [0..<length rs])"
    by (simp add: normalize_length [OF assms(1)])
next
  fix i assume "i < length (map image_id images)"
  then have i: "i < length rs" by (simp add: normalize_length [OF assms(1)])
  then have "nullish (prop_of (rs ! i) ''id'')" "nullish (prop_of (rs ! i) ''filename'')"
    using assms(2) by simp_all
  then have "id_text (images ! i) = string_of_nat i"
    using normalize_nth(2) [OF assms(1) i]
    by (simp del: string_of_nat.simps add: coalesce_def string_or_index_def)
  then show "map image_id images ! i = map (JStr \<circ> string_of_nat) [0..<length rs] ! i"
    using i normalize_nth(3) [OF assms(1) i]
    by (simp del: string_of_nat.simps add: normalize_length [OF assms(1)])
qed

text \<open>
  C9, as stated, fails: normalization derives the ids and does nothing to keep them
  apart. Two results that carry the same id give the same item id, and so do a result
  with the id \<open>1\<close> and a result without id or filename at index 1.
\<close>

theorem normalize_ids_counterexample:
  "normalize integer_text example_numbers duplicate_results =
     Inr [\<lparr>image_id = JStr ''a'', image_filename = JStr ''image_0'',
            image_analysis = default_analysis\<rparr>,
          \<lparr>image_id = JStr ''a'', image_filename = JStr ''image_1'',
            image_analysis = default_analysis\<rparr>]
   \<and> normalize integer_text example_numbers clashing_results =
     Inr [\<lparr>image_id = JStr ''1'', image_filename = JStr ''image_0'',
            image_analysis = default_analysis\<rparr>,
          \<lparr>image_id = JStr ''1'', image_filename = JStr ''image_1'',
            image_analysis = JObj
              [(''subject'', JStr ''sea''), (''mood'', JArr []), (''composition'', JObj []),
               (''visual_energy'', JNum 5), (''best_role'', JArr [])]\<rparr>]
   \<and> \<not> distinct [JStr ''a'', JStr ''a'']
   \<and> \<not> distinct [JStr ''1'', JStr ''1'']"
  by (simp add: normalize_def analysis_bag_def duplicate_results_def clashing_results_def
      get_prop_def coalesce_def nullish_def string_or_index_def js_or_def digit_char_def
      default_analysis_def)

text \<open>
  C9, amended. Normalization returns exactly when no analysis result is \<^verbatim>\<open>null\<close>, the
  id-or-filename of every result has a text and the visual energy of every result has a
  number; otherwise it throws. When it returns it yields one item per result, in order,
  whose id is the text of the result's id, else of its filename, else of its index. It
  neither checks nor enforces uniqueness. When no result carries an id or a filename the
  ids are the decimal indices and pairwise distinct.
\<close>

theorem normalize_ids:
  "((\<exists>images. normalize ns sn analysisResults = Inr images) \<longleftrightarrow>
      list_all (\<lambda>a. \<not> nullish a
          \<and> has_text ns (coalesce (prop_of a ''id'') (prop_of a ''filename''))
          \<and> has_number ns sn
              (coalesce (coalesce (prop_of a ''visual_energy'') (prop_of a ''visualWeight''))
                 (JNum 5)))
        analysisResults)
   \<and> (normalize ns sn analysisResults = Inr images \<longrightarrow>
        length images = length analysisResults
        \<and> (\<forall>i<length analysisResults.
              \<exists>s. string_or_index ns
                     (coalesce (prop_of (analysisResults ! i) ''id'')
                               (prop_of (analysisResults ! i) ''filename'')) i = Inr s
                 \<and> image_id (images ! i) = JStr s)
        \<and> ((\<forall>a\<in>set analysisResults. nullish (prop_of a ''id'') \<and> nullish (prop_of a ''filename''))
             \<longrightarrow> map image_id images = map (JStr \<circ> string_of_nat) [0..<length analysisResults]
                 \<and> distinct (map image_id images)))"
proof (intro conjI impI allI)
  let ?ok = "\<lambda>a. \<not> nullish a
          \<and> has_text ns (coalesce (prop_of a ''id'') (prop_of a ''filename''))
          \<and> has_number ns sn
              (coalesce (coalesce (prop_of a ''visual_energy'') (prop_of a ''visualWeight''))
                 (JNum 5))"
  show "(\<exists>images. normalize ns sn analysisResults = Inr images) \<longleftrightarrow> list_all ?ok analysisResults"
  proof
    assume "\<exists>images. normalize ns sn analysisResults = Inr images"
    then obtain images where n: "normalize ns sn analysisResults = Inr images" by blast
    have "?ok (analysisResults ! i)" if "i < length analysisResults" for i
      using normalize_nth(1) [OF n that] normalize_nth(2) [OF n that, THEN string_or_index_text]
        normalize_nth(5) [OF n that, THEN analysis_bag_number]
      by simp
    then show "list_all ?ok analysisResults" by (simp add: list_all_length)
  next
    assume a: "list_all ?ok analysisResults"
    define f where "f = (\<lambda>(idx, a).
          bind_result (get_prop a ''id'') (\<lambda>a_id.
          bind_result (get_prop a ''filename'') (\<lambda>a_filename.
          bind_result (string_or_index ns (coalesce a_id a_filename) idx) (\<lambda>id_string.
          bind_result (analysis_bag ns sn a) (\<lambda>analysis.
            Inr \<lparr>image_id = JStr id_string,
                 image_filename = js_or a_filename (JStr (''image_'' @ string_of_nat idx)),
                 image_analysis = analysis\<rparr>)))))"
    define g where "g = (\<lambda>x. case f x of Inr img \<Rightarrow> img
        | Inl e \<Rightarrow> \<lparr>image_id = JUndefined, image_filename = JUndefined, image_analysis = JUndefined\<rparr>)"
    have "map_result f (enumerate 0 analysisResults) = Inr (map g (enumerate 0 analysisResults))"
    proof (rule map_result_total)
      fix x assume x: "x \<in> set (enumerate 0 analysisResults)"
      obtain idx r where xi: "x = (idx, r)" by (cases x)
      with x have "r \<in> set analysisResults" by (auto simp: in_set_enumerate_eq)
      with a have ok: "?ok r" by (simp add: list_all_iff)
      then obtain s where s: "string_or_index ns
          (coalesce (prop_of r ''id'') (prop_of r ''filename'')) idx = Inr s"
        using string_or_index_defined by blast
      from ok obtain bag where bag: "analysis_bag ns sn r = Inr bag"
        using analysis_bag_defined by blast
      from ok have "f x = Inr \<lparr>image_id = JStr s,
                 image_filename = js_or (prop_of r ''filename'') (JStr (''image_'' @ string_of_nat idx)),
                 image_analysis = bag\<rparr>"
        by (simp del: string_of_nat.simps add: f_def xi get_prop_defined s bag)
      then show "f x = Inr (g x)" by (simp add: g_def)
    qed
    then show "\<exists>images. normalize ns sn analysisResults = Inr images"
      unfolding normalize_def f_def by blast
  qed
next
  assume "normalize ns sn analysisResults = Inr images"
  then show "length images = length analysisResults" by (rule normalize_length)
next
  fix i
  assume n: "normalize ns sn analysisResults = Inr images" and i: "i < length analysisResults"
  show "\<exists>s. string_or_index ns
                     (coalesce (prop_of (analysisResults ! i) ''id'')
                               (prop_of (analysisResults ! i) ''filename'')) i = Inr s
                 \<and> image_id (images ! i) = JStr s"
    using normalize_nth(2,3) [OF n i] by blast
next
  assume n: "normalize ns sn analysisResults = Inr images"
    and p: "\<forall>a\<in>set analysisResults. nullish (prop_of a ''id'') \<and> nullish (prop_of a ''filename'')"
  then show "map image_id images = map (JStr \<circ> string_of_nat) [0..<length analysisResults]"
    by (rule normalize_positional)
next
  assume n: "normalize ns sn analysisResults = Inr images"
    and p: "\<forall>a\<in>set analysisResults. nullish (prop_of a ''id'') \<and> nullish (prop_of a ''filename'')"
  have "distinct (map (JStr \<circ> string_of_nat) [0..<length analysisResults])"
    using inj_string_of_nat by (simp add: distinct_map inj_on_def inj_def)
  then show "distinct (map image_id images)"
    by (simp only: normalize_positional [OF n p])
qed

theorem normalize_ids_witness:
  "list_all (\<lambda>a. \<not> nullish a
          \<and> has_text integer_text (coalesce (prop_of a ''id'') (prop_of a ''filename''))
          \<and> has_number integer_text example_numbers
              (coalesce (coalesce (prop_of a ''visual_energy'') (prop_of a ''visualWeight''))
                 (JNum 5)))
        named_results
   \<and> normalize integer_text example_numbers named_results =
       Inr [\<lparr>image_id = JStr ''sea.jpg'', image_filename = JStr ''sea.jpg'',
              image_analysis = default_analysis\<rparr>,
            \<lparr>image_id = JStr ''7'', image_filename = JStr ''hill.jpg'',
              image_analysis = default_analysis\<rparr>,
            \<lparr>image_id = JStr ''2'', image_filename = JStr ''image_2'',
              image_analysis = JObj
                [(''subject'', JStr []), (''mood'', JArr []), (''composition'', JObj []),
                 (''visual_energy'', JNum 8), (''best_role'', JArr [])]\<rparr>]
   \<and> list_all (\<lambda>a. nullish (prop_of a ''id'') \<and> nullish (prop_of a ''filename'')) bare_results
   \<and> (\<exists>images. normalize integer_text example_numbers bare_results = Inr images
        \<and> length images = 3
        \<and> map image_id images = [JStr ''0'', JStr ''1'', JStr ''2'']
        \<and> distinct (map image_id images))"
proof -
  have named: "normalize integer_text example_numbers named_results =
       Inr [\<lparr>image_id = JStr ''sea.jpg'', image_filename = JStr ''sea.jpg'',
              image_analysis = default_analysis\<rparr>,
            \<lparr>image_id = JStr ''7'', image_filename = JStr ''hill.jpg'',
              image_analysis = default_analysis\<rparr>,
            \<lparr>image_id = JStr ''2'', image_filename = JStr ''image_2'',
              image_analysis = JObj
                [(''subject'', JStr []), (''mood'', JArr []), (''composition'', JObj []),
                 (''visual_energy'', JNum 8), (''best_role'', JArr [])]\<rparr>]"
    by (simp add: normalize_def analysis_bag_def named_results_def get_prop_def coalesce_def
        nullish_def string_or_index_def js_or_def digit_char_def default_analysis_def
        integer_text_def example_numbers_def number_table_def)
  have ok: "list_all (\<lambda>a. \<not> nullish a
          \<and> has_text integer_text (coalesce (prop_of a ''id'') (prop_of a ''filename''))
          \<and> has_number integer_text example_numbers
              (coalesce (coalesce (prop_of a ''visual_energy'') (prop_of a ''visualWeight''))
                 (JNum 5)))
        named_results"
    using normalize_ids [of integer_text example_numbers named_results] named by simp
  have b: "list_all (\<lambda>a. nullish (prop_of a ''id'') \<and> nullish (prop_of a ''filename'')) bare_results"
    by (simp add: bare_results_def nullish_def prop_of_def get_prop_def)
  have okb: "list_all (\<lambda>a. \<not> nullish a
          \<and> has_text integer_text (coalesce (prop_of a ''id'') (prop_of a ''filename''))
          \<and> has_number integer_text example_numbers
              (coalesce (coalesce (prop_of a ''visual_energy'') (prop_of a ''visualWeight''))
                 (JNum 5)))
        bare_results"
    by (simp add: bare_results_def nullish_def prop_of_def get_prop_def coalesce_def
        has_text_def has_number_def)
  have c: "map (JStr \<circ> string_of_nat) [0..<length bare_results] = [JStr ''0'', JStr ''1'', JStr ''2'']"
    by (simp add: bare_results_def upt_rec digit_char_def)
  from normalize_ids [of integer_text example_numbers bare_results] okb
  obtain images where n: "normalize integer_text example_numbers bare_results = Inr images"
    by blast
  from normalize_ids [of integer_text example_numbers bare_results images] n b c
  have "length images = 3 \<and> map image_id images = [JStr ''0'', JStr ''1'', JStr ''2'']
      \<and> distinct (map image_id images)"
    by (simp add: list_all_iff bare_results_def)
  with n ok named b show ?thesis by (intro conjI exI [of _ images]) simp_all
qed

section \<open>The vision loop\<close>

lemma snd_analyzeImage:
  "snd (analyzeImage parse rc sent (base64Data p) (filename p) (photo_mimeType p)) =
     sent @ [image_url p]"
  by (simp add: analyzeImage_def image_url_def Let_def)

lemma analyze_photos_acc:
  "analyze_photos parse rc photos (acc, sent) =
     (acc @ fst (analyze_photos parse rc photos ([], sent)),
      snd (analyze_photos parse rc photos ([], sent)))"
proof (induction photos arbitrary: acc sent)
  case Nil
  then show ?case by simp
next
  case (Cons p ps)
  show ?case
  proof (cases "length (base64Data p) > 13300000")
    case True
    then show ?thesis
      using Cons [of "acc @ [createFallbackAnalysis (filename p)]" sent]
        Cons [of "[createFallbackAnalysis (filename p)]" sent]
      by simp
  next
    case False
    obtain outcome sent' where a:
      "analyzeImage parse rc sent (base64Data p) (filename p) (photo_mimeType p) = (outcome, sent')"
      by (cases "analyzeImage parse rc sent (base64Data p) (filename p) (photo_mimeType p)")
    show ?thesis
      using False a
        Cons [of "acc @ [case outcome of Inr analysis \<Rightarrow> analysis
                         | Inl e \<Rightarrow> createFallbackAnalysis (filename p)]" sent']
        Cons [of "[case outcome of Inr analysis \<Rightarrow> analysis
                         | Inl e \<Rightarrow> createFallbackAnalysis (filename p)]" sent']
      by simp
  qed
qed

lemma analyze_photos_oversize:
  assumes "oversize p"
  shows "analyze_photos parse rc (p # ps) ([], sent) =
     (createFallbackAnalysis (filename p) # fst (analyze_photos parse rc ps ([], sent)),
      snd (analyze_photos parse rc ps ([], sent)))"
  using assms analyze_photos_acc [of parse rc ps "[createFallbackAnalysis (filename p)]" sent]
  by (simp add: oversize_def)

lemma analyze_photos_sent:
  assumes "\<not> oversize p"
  shows "\<exists>r. analyze_photos parse rc (p # ps) ([], sent) =
     (r # fst (analyze_photos parse rc ps ([], sent @ [image_url p])),
      snd (analyze_photos parse rc ps ([], sent @ [image_url p])))"
proof -
  obtain outcome sent' where a:
    "analyzeImage parse rc sent (base64Data p) (filename p) (photo_mimeType p) = (outcome, sent')"
    by (cases "analyzeImage parse rc sent (base64Data p) (filename p) (photo_mimeType p)")
  then have s: "sent' = sent @ [image_url p]"
    using snd_analyzeImage [of parse rc sent p] by simp
  show ?thesis
    using assms a s
      analyze_photos_acc [of parse rc ps "[case outcome of Inr analysis \<Rightarrow> analysis
                         | Inl e \<Rightarrow> createFallbackAnalysis (filename p)]" sent']
    by (simp add: oversize_def)
qed

lemma length_analyze_photos:
  "length (fst (analyze_photos parse rc photos ([], sent))) = length photos"
proof (induction photos arbitrary: sent)
  case Nil
  then show ?case by simp
next
  case (Cons p ps)
  show ?case
  proof (cases "oversize p")
    case True
    then show ?thesis by (simp del: analyze_photos.simps add: analyze_photos_oversize Cons)
  next
    case False
    from analyze_photos_sent [OF False, of parse rc ps sent] obtain r where
      "analyze_photos parse rc (p # ps) ([], sent) =
        (r # fst (analyze_photos parse rc ps ([], sent @ [image_url p])),
         snd (analyze_photos parse rc ps ([], sent @ [image_url p])))" by blast
    then show ?thesis by (simp del: analyze_photos.simps add: Cons)
  qed
qed

lemma sent_analyze_photos:
  "snd (analyze_photos parse rc photos ([], sent)) =
     sent @ map image_url (filter (\<lambda>p. \<not> oversize p) photos)"
proof (induction photos arbitrary: sent)
  case Nil
  then show ?case by simp
next
  case (Cons p ps)
  show ?case
  proof (cases "oversize p")
    case True
    then show ?thesis by (simp del: analyze_photos.simps add: analyze_photos_oversize Cons)
  next
    case False
    from analyze_photos_sent [OF False, of parse rc ps sent] obtain r where
      "analyze_photos parse rc (p # ps) ([], sent) =
        (r # fst (analyze_photos parse rc ps ([], sent @ [image_url p])),
         snd (analyze_photos parse rc ps ([], sent @ [image_url p])))" by blast
    then show ?thesis using False by (simp del: analyze_photos.simps add: Cons)
  qed
qed

lemma oversize_entry:
  "i < length photos \<Longrightarrow> oversize (photos ! i) \<Longrightarrow>
   fst (analyze_photos parse rc photos ([], sent)) ! i = createFallbackAnalysis (filename (photos ! i))"
proof (induction photos arbitrary: i sent)
  case Nil
  then show ?case by simp
next
  case (Cons p ps)
  show ?case
  proof (cases "oversize p")
    case True
    with Cons show ?thesis
      by (cases i) (simp_all del: analyze_photos.simps add: analyze_photos_oversize)
  next
    case False
    from analyze_photos_sent [OF False, of parse rc ps sent] obtain r where
      "analyze_photos parse rc (p # ps) ([], sent) =
        (r # fst (analyze_photos parse rc ps ([], sent @ [image_url p])),
         snd (analyze_photos parse rc ps ([], sent @ [image_url p])))" by blast
    with Cons False show ?thesis by (cases i) (simp_all del: analyze_photos.simps)
  qed
qed

lemma siblings_unaffected:
  "analyze_photos parse rc (filter (\<lambda>p. \<not> oversize p) photos) ([], sent) =
     (map snd (filter (\<lambda>pr. \<not> oversize (fst pr))
        (zip photos (fst (analyze_photos parse rc photos ([], sent))))),
      snd (analyze_photos parse rc photos ([], sent)))"
proof (induction photos arbitrary: sent)
  case Nil
  then show ?case by simp
next
  case (Cons p ps)
  show ?case
  proof (cases "oversize p")
    case True
    then show ?thesis by (simp del: analyze_photos.simps add: analyze_photos_oversize Cons)
  next
    case False
    obtain outcome sent' where a:
      "analyzeImage parse rc sent (base64Data p) (filename p) (photo_mimeType p) = (outcome, sent')"
      by (cases "analyzeImage parse rc sent (base64Data p) (filename p) (photo_mimeType p)")
    define r where "r = (case outcome of Inr analysis \<Rightarrow> analysis
                         | Inl e \<Rightarrow> createFallbackAnalysis (filename p))"
    have step: "analyze_photos parse rc (p # qs) ([], sent) =
        (r # fst (analyze_photos parse rc qs ([], sent')), snd (analyze_photos parse rc qs ([], sent')))"
      for qs
      using False a analyze_photos_acc [of parse rc qs "[r]" sent']
      by (simp add: oversize_def r_def)
    show ?thesis
      using False by (simp del: analyze_photos.simps add: step Cons)
  qed
qed

lemma length_big_payload: "length big_payload = 13300001"
  by (simp add: big_payload_def)

lemma big_payload_no_comma: "CHR '','' \<notin> set big_payload"
  by (simp add: big_payload_def)

lemma vision_batch_example:
  "vision_batch vision_parse vision_upstream photo_batch =
     ((200, VisionOk
        [JObj [(''filename'', JStr ''cat.png''), (''subject'', JStr ''pet'')],
         createFallbackAnalysis ''big.jpg'',
         JObj [(''filename'', JStr ''dog.webp''), (''subject'', JStr ''pet'')]] 3),
      [''data:image/png;base64,AAAA'', ''data:image/webp;base64,BBBB''])"
  by (simp add: vision_batch_def photo_batch_def base64Data_def big_payload_no_comma
      length_big_payload photo_mimeType_def toLowerCase_def capital_letters_def
      small_letters_def analyzeImage_def vision_upstream_def vision_parse_def parse_table_def
      pet_answer_def bind_result_def try_catch_def get_prop_def safeParseJSON_def cleaned_def
      trim_def is_space_def fence_def spread_onto_def property_order_def is_index_key_def
      is_digit_def Let_def)

lemma oversize_example:
  "filter (\<lambda>p. \<not> oversize p) photo_batch =
     [\<lparr>filename = ''cat.png'', data = ''data:image/png;base64,AAAA'', mimeType = None\<rparr>,
      \<lparr>filename = ''dog.webp'', data = ''BBBB'', mimeType = None\<rparr>]"
  by (simp add: photo_batch_def oversize_def base64Data_def big_payload_no_comma
      length_big_payload)

text \<open>
  C10. A photo whose base64 payload is longer than 13,300,000 characters is not sent
  upstream: the calls made are those for the other photos, in order. The reply still has
  one result per photo, in request order, and counts them all; the result of such a photo
  is the canned fallback analysis for its filename. The other photos are processed as if
  the large ones were not in the batch: without them the same calls are made and the same
  results come back.
\<close>

theorem oversize_photos_fallback:
  "\<exists>results.
     vision_batch parse rc photos =
       ((200, VisionOk results (length photos)),
        map image_url (filter (\<lambda>p. \<not> oversize p) photos))
     \<and> length results = length photos
     \<and> (\<forall>i<length photos. oversize (photos ! i) \<longrightarrow>
           results ! i = createFallbackAnalysis (filename (photos ! i)))
     \<and> vision_batch parse rc (filter (\<lambda>p. \<not> oversize p) photos) =
         ((200, VisionOk (map snd (filter (\<lambda>pr. \<not> oversize (fst pr)) (zip photos results)))
                  (length (filter (\<lambda>p. \<not> oversize p) photos))),
          map image_url (filter (\<lambda>p. \<not> oversize p) photos))"
proof -
  define results where "results = fst (analyze_photos parse rc photos ([], []))"
  define small where "small = filter (\<lambda>p. \<not> oversize p) photos"
  have a: "analyze_photos parse rc photos ([], []) = (results, map image_url small)"
    unfolding results_def small_def
    using sent_analyze_photos [of parse rc photos "[]"] by (simp add: prod_eq_iff)
  have l: "length results = length photos"
    unfolding results_def by (rule length_analyze_photos)
  have b: "analyze_photos parse rc small ([], []) =
     (map snd (filter (\<lambda>pr. \<not> oversize (fst pr)) (zip photos results)), map image_url small)"
    unfolding small_def results_def
    using siblings_unaffected [of parse rc photos "[]"] sent_analyze_photos [of parse rc photos "[]"]
    by simp
  have lb: "length (map snd (filter (\<lambda>pr. \<not> oversize (fst pr)) (zip photos results))) = length small"
    using length_analyze_photos [of parse rc small "[]"] by (simp only: b fst_conv)
  have o: "results ! i = createFallbackAnalysis (filename (photos ! i))"
    if "i < length photos" "oversize (photos ! i)" for i
    unfolding results_def using that by (rule oversize_entry)
  have v1: "vision_batch parse rc photos = ((200, VisionOk results (length photos)), map image_url small)"
    by (simp add: vision_batch_def a l)
  have v2: "vision_batch parse rc small =
      ((200, VisionOk (map snd (filter (\<lambda>pr. \<not> oversize (fst pr)) (zip photos results))) (length small)),
       map image_url small)"
    using lb by (simp add: vision_batch_def b)
  show ?thesis
    using v1 v2 l o unfolding small_def by blast
qed

theorem oversize_photos_fallback_witness:
  "oversize (photo_batch ! 1)
   \<and> (\<exists>results.
        vision_batch vision_parse vision_upstream photo_batch =
          ((200, VisionOk results 3),
           [''data:image/png;base64,AAAA'', ''data:image/webp;base64,BBBB''])
        \<and> results ! 1 = createFallbackAnalysis ''big.jpg''
        \<and> vision_batch vision_parse vision_upstream (filter (\<lambda>p. \<not> oversize p) photo_batch) =
          ((200, VisionOk [results ! 0, results ! 2] 2),
           [''data:image/png;base64,AAAA'', ''data:image/webp;base64,BBBB'']))"
proof -
  have o: "oversize (photo_batch ! 1)"
    by (simp add: photo_batch_def oversize_def base64Data_def big_payload_no_comma
        length_big_payload)
  from oversize_photos_fallback [of vision_parse vision_upstream photo_batch]
  obtain results where
    r: "vision_batch vision_parse vision_upstream photo_batch =
       ((200, VisionOk results (length photo_batch)),
        map image_url (filter (\<lambda>p. \<not> oversize p) photo_batch))"
    and s: "vision_batch vision_parse vision_upstream (filter (\<lambda>p. \<not> oversize p) photo_batch) =
         ((200, VisionOk (map snd (filter (\<lambda>pr. \<not> oversize (fst pr)) (zip photo_batch results)))
                  (length (filter (\<lambda>p. \<not> oversize p) photo_batch))),
          map image_url (filter (\<lambda>p. \<not> oversize p) photo_batch))"
    by blast
  from r have res: "results =
        [JObj [(''filename'', JStr ''cat.png''), (''subject'', JStr ''pet'')],
         createFallbackAnalysis ''big.jpg'',
         JObj [(''filename'', JStr ''dog.webp''), (''subject'', JStr ''pet'')]]"
    by (simp add: vision_batch_example)
  have z: "map snd (filter (\<lambda>pr. \<not> oversize (fst pr)) (zip photo_batch
        [JObj [(''filename'', JStr ''cat.png''), (''subject'', JStr ''pet'')],
         createFallbackAnalysis ''big.jpg'',
         JObj [(''filename'', JStr ''dog.webp''), (''subject'', JStr ''pet'')]])) =
      [JObj [(''filename'', JStr ''cat.png''), (''subject'', JStr ''pet'')],
       JObj [(''filename'', JStr ''dog.webp''), (''subject'', JStr ''pet'')]]"
    by (simp add: photo_batch_def oversize_def base64Data_def big_payload_no_comma
        length_big_payload)
  have lf: "length (filter (\<lambda>p. \<not> oversize p) photo_batch) = 2"
    by (simp add: oversize_example)
  have v: "vision_batch vision_parse vision_upstream (filter (\<lambda>p. \<not> oversize p) photo_batch) =
      ((200, VisionOk [results ! 0, results ! 2] 2),
       [''data:image/png;base64,AAAA'', ''data:image/webp;base64,BBBB''])"
    using s r by (simp add: res z vision_batch_example lf)
  show ?thesis
    using o v by (intro conjI exI [of _ results]) (simp_all add: vision_batch_example res)
qed

end
